theory Spec2Isabelle
  imports Complex_Main
begin

section \<open>Python values shared by the operations of \<open>Tools\<close>\<close>

text \<open>
  The operations of \<open>src/tools.py\<close> raise Python exceptions; the model returns them as
  values. A \<open>ValueError\<close> and an \<open>IndexError\<close> carry their message, a \<open>KeyError\<close> the key
  that was not found, a \<open>FileNotFoundError\<close> and an \<open>OSError\<close> the path, and a
  \<open>MissingSpatialDimensionError\<close> of rioxarray the name of the dimension. Where the
  wording of a message of xarray depends on the version of the library, the message is
  given in substance.
\<close>

datatype pyerr =
    ValueError string
  | KeyError string
  | OverflowError
  | FileNotFoundError string
  | OSError string
  | IndexError string
  | RuntimeError
  | InvalidIndexError
  | MissingSpatialDimensionError string

text \<open>\<open>repr(s)\<close> of a string of printable characters without quote or backslash.\<close>

definition py_repr :: "string \<Rightarrow> string" where
  "py_repr s = [CHR 0x27] @ s @ [CHR 0x27]"

subsection \<open>Decimal strings\<close>

definition digits10 :: string where
  "digits10 = ''0123456789''"

definition digit_val :: "char \<Rightarrow> nat" where
  "digit_val c = of_char c - 48"

text \<open>The character of a digit \<open>n < 10\<close>.\<close>

definition digit_char :: "nat \<Rightarrow> char" where
  "digit_char n = digits10 ! n"

text \<open>
  A string is a list of 8-bit characters, read as the code points below 256. Among
  these \<open>str.isdigit()\<close> accepts the ten decimal digits and the superscripts two, three
  and one (code points \<open>0xB2\<close>, \<open>0xB3\<close>, \<open>0xB9\<close>); the string must not be empty.
\<close>

definition superscripts :: string where
  "superscripts = [CHR 0xB2, CHR 0xB3, CHR 0xB9]"

definition str_isdigit :: "string \<Rightarrow> bool" where
  "str_isdigit s = (s \<noteq> [] \<and> list_all (\<lambda>c. c \<in> set digits10 \<or> c \<in> set superscripts) s)"

text \<open>The number a string of decimal digits stands for.\<close>

definition int_of_digits :: "string \<Rightarrow> nat" where
  "int_of_digits s = foldl (\<lambda>a c. 10 * a + digit_val c) 0 s"

text \<open>
  \<open>int(s)\<close> on a string that passed \<open>isdigit\<close>: the number when every character is a
  decimal digit; a superscript is no literal of an integer and raises \<open>ValueError\<close>.
\<close>

definition int_str :: "string \<Rightarrow> pyerr + nat" where
  "int_str s =
     (if s \<noteq> [] \<and> list_all (\<lambda>c. c \<in> set digits10) s then Inr (int_of_digits s)
      else Inl (ValueError (''invalid literal for int() with base 10: '' @ py_repr s)))"

text \<open>\<open>str(n)\<close> and \<open>f'{n}'\<close> for a non-negative integer: no padding.\<close>

fun str_nat :: "nat \<Rightarrow> string" where
  "str_nat n = (if n < 10 then [digit_char n] else str_nat (n div 10) @ [digit_char (n mod 10)])"

declare str_nat.simps [simp del]

text \<open>\<open>s.zfill(w)\<close> and the format \<open>{n:03}\<close>: zeros on the left up to the width.\<close>

definition zfill :: "nat \<Rightarrow> string \<Rightarrow> string" where
  "zfill w s = replicate (w - length s) (CHR ''0'') @ s"

subsection \<open>Calendar dates\<close>

text \<open>
  A \<open>datetime.date\<close> (and the date part of a pandas timestamp): year, month, day of
  the proleptic Gregorian calendar, years 1 to 9999.
\<close>

datatype date = Date (year: nat) (month: nat) (day: nat)

definition is_leap :: "nat \<Rightarrow> bool" where
  "is_leap y = (y mod 4 = 0 \<and> (y mod 100 \<noteq> 0 \<or> y mod 400 = 0))"

definition days_in_month :: "nat \<Rightarrow> nat \<Rightarrow> nat" where
  "days_in_month y m =
     (if m = 2 then (if is_leap y then 29 else 28)
      else if m = 4 \<or> m = 6 \<or> m = 9 \<or> m = 11 then 30 else 31)"

definition days_in_year :: "nat \<Rightarrow> nat" where
  "days_in_year y = (if is_leap y then 366 else 365)"

definition valid_date :: "date \<Rightarrow> bool" where
  "valid_date d =
     (1 \<le> year d \<and> year d \<le> 9999 \<and> 1 \<le> month d \<and> month d \<le> 12 \<and>
      1 \<le> day d \<and> day d \<le> days_in_month (year d) (month d))"

text \<open>Days before the first of January of year \<open>y\<close>, and before the first of month \<open>m\<close>.\<close>

definition days_before_year :: "nat \<Rightarrow> nat" where
  "days_before_year y = 365 * (y - 1) + (y - 1) div 4 - (y - 1) div 100 + (y - 1) div 400"

definition days_before_month :: "nat \<Rightarrow> nat \<Rightarrow> nat" where
  "days_before_month y m =
     [0, 31, 59, 90, 120, 151, 181, 212, 243, 273, 304, 334] ! (m - 1) +
     (if 2 < m \<and> is_leap y then 1 else 0)"

text \<open>The day of the year (1 to 366) and \<open>date.toordinal()\<close>.\<close>

definition day_of_year :: "date \<Rightarrow> nat" where
  "day_of_year d = days_before_month (year d) (month d) + day d"

definition toordinal :: "date \<Rightarrow> nat" where
  "toordinal d = days_before_year (year d) + day_of_year d"

text \<open>One day later and one day earlier.\<close>

definition next_day :: "date \<Rightarrow> date" where
  "next_day d =
     (if day d < days_in_month (year d) (month d) then Date (year d) (month d) (day d + 1)
      else if month d < 12 then Date (year d) (month d + 1) 1
      else Date (year d + 1) 1 1)"

definition prev_day :: "date \<Rightarrow> date" where
  "prev_day d =
     (if 1 < day d then Date (year d) (month d) (day d - 1)
      else if 1 < month d then Date (year d) (month d - 1) (days_in_month (year d) (month d - 1))
      else Date (year d - 1) 12 31)"

text \<open>The date \<open>n\<close> days after \<open>d\<close>: \<open>date.fromordinal(d.toordinal() + n)\<close>.\<close>

primrec add_days :: "date \<Rightarrow> nat \<Rightarrow> date" where
  "add_days d 0 = d"
| "add_days d (Suc n) = add_days (next_day d) n"

text \<open>
  \<open>strftime('%Y-%m-%d')\<close>. The C library pads month and day to two digits; the year is
  printed as it is (four digits from year 1000 on).
\<close>

definition strftime_ymd :: "date \<Rightarrow> string" where
  "strftime_ymd d =
     str_nat (year d) @ ''-'' @ zfill 2 (str_nat (month d)) @ ''-'' @ zfill 2 (str_nat (day d))"

section \<open>\<open>translate_julian_dates\<close>\<close>

subsection \<open>\<open>os.path.splitext\<close> on a directory entry\<close>

text \<open>
  A directory entry holds no path separator. The extension starts at the last dot,
  unless only dots precede it: leading dots belong to the base name.
\<close>

definition splitext :: "string \<Rightarrow> string \<times> string" where
  "splitext p =
     (if CHR ''.'' \<in> set (dropWhile (\<lambda>c. c = CHR ''.'') p)
      then (rev (tl (dropWhile (\<lambda>c. c \<noteq> CHR ''.'') (rev p))),
            CHR ''.'' # rev (takeWhile (\<lambda>c. c \<noteq> CHR ''.'') (rev p)))
      else (p, []))"

subsection \<open>\<open>datetime.strptime(s, '%Y%j')\<close>\<close>

text \<open>
  \<open>strptime\<close> compiles the format into the regular expression
  \<^verbatim>\<open>(?P<Y>\d\d\d\d)(?P<j>36[0-6]|3[0-5]\d|[1-2]\d\d|0[1-9]\d|00[1-9]|[1-9]\d|0[1-9]|[1-9])\<close>
  and matches it at the start of the string. A sequence of character classes is a list
  of strings, each string the characters of one class; the alternatives are tried in
  order and the first that matches wins.
\<close>

fun match_classes :: "string list \<Rightarrow> string \<Rightarrow> (string \<times> string) option" where
  "match_classes [] s = Some ([], s)"
| "match_classes (cls # rest) [] = None"
| "match_classes (cls # rest) (c # s) =
     (if c \<in> set cls
      then (case match_classes rest s of None \<Rightarrow> None | Some (m, r) \<Rightarrow> Some (c # m, r))
      else None)"

fun first_match :: "string list list \<Rightarrow> string \<Rightarrow> (string \<times> string) option" where
  "first_match [] s = None"
| "first_match (alt # alts) s =
     (case match_classes alt s of Some r \<Rightarrow> Some r | None \<Rightarrow> first_match alts s)"

definition year_classes :: "string list" where
  "year_classes = [digits10, digits10, digits10, digits10]"

definition julian_alternatives :: "string list list" where
  "julian_alternatives =
     [[''3'', ''6'', ''0123456''],
      [''3'', ''012345'', digits10],
      [''12'', digits10, digits10],
      [''0'', ''123456789'', digits10],
      [''0'', ''0'', ''123456789''],
      [''123456789'', digits10],
      [''0'', ''123456789''],
      [''123456789'']]"

text \<open>
  After the match, text left over is an error. With a day of the year given, the date is
  \<open>fromordinal((julian - 1) + date(year, 1, 1).toordinal())\<close>: the day of the year is
  not compared with the length of the year. The messages are those of \<open>_strptime\<close> and
  of \<open>datetime.date\<close>.
\<close>

definition does_not_match :: "string \<Rightarrow> string" where
  "does_not_match s =
     ''time data '' @ py_repr s @ '' does not match format '' @ py_repr ''%Y%j''"

definition julian_to_date :: "nat \<Rightarrow> nat \<Rightarrow> date" where
  "julian_to_date y j = add_days (Date y 1 1) (j - 1)"

definition strptime_Yj :: "string \<Rightarrow> pyerr + date" where
  "strptime_Yj s =
     (case match_classes year_classes s of
        None \<Rightarrow> Inl (ValueError (does_not_match s))
      | Some (ys, r1) \<Rightarrow>
          (case first_match julian_alternatives r1 of
             None \<Rightarrow> Inl (ValueError (does_not_match s))
           | Some (js, r2) \<Rightarrow>
               if r2 \<noteq> [] then Inl (ValueError (''unconverted data remains: '' @ r2))
               else if int_of_digits ys = 0 then Inl (ValueError ''year 0 is out of range'')
               else
                 (let fecha = julian_to_date (int_of_digits ys) (int_of_digits js)
                  in if 9999 < year fecha then Inl (ValueError ''year 10000 is out of range'')
                     else Inr fecha)))"

subsection \<open>The directory and the loop\<close>

text \<open>
  The directory is a map from entry names to file contents. \<open>os.rename\<close> moves the
  content to the new name, replacing a file already there, and fails when the source
  is missing.
\<close>

type_synonym 'a disk = "string \<rightharpoonup> 'a"

definition os_rename :: "string \<Rightarrow> string \<Rightarrow> 'a disk \<Rightarrow> pyerr + 'a disk" where
  "os_rename src dst fs =
     (case fs src of
        None \<Rightarrow> Inl (FileNotFoundError src)
      | Some content \<Rightarrow> Inr ((fs(src := None))(dst \<mapsto> content)))"

text \<open>
  The local variables of the loop body, as functions of the entry \<open>archivo\<close>:
  \<open>nombre, extension = os.path.splitext(archivo)\<close>.
\<close>

definition nombre :: "string \<Rightarrow> string" where
  "nombre archivo = fst (splitext archivo)"

definition extension :: "string \<Rightarrow> string" where
  "extension archivo = snd (splitext archivo)"

text \<open>The test \<open>len(nombre) == 7 and nombre.isdigit()\<close>.\<close>

definition is_julian_name :: "string \<Rightarrow> bool" where
  "is_julian_name archivo = (length (nombre archivo) = 7 \<and> str_isdigit (nombre archivo))"

text \<open>
  The new name of an entry that passes the test. The year is \<open>int(nombre[:4])\<close> and the
  day \<open>int(nombre[4:])\<close>, each of which may raise; \<open>strptime\<close> then reads the string
  \<open>f'{anio}{dia_juliano:03}'\<close>, built from the two integers, not the base name.
\<close>

definition nuevo_nombre :: "string \<Rightarrow> pyerr + string" where
  "nuevo_nombre archivo =
     (case int_str (take 4 (nombre archivo)) of
        Inl e \<Rightarrow> Inl e
      | Inr a \<Rightarrow>
          (case int_str (drop 4 (nombre archivo)) of
             Inl e \<Rightarrow> Inl e
           | Inr j \<Rightarrow>
               (case strptime_Yj (str_nat a @ zfill 3 (str_nat j)) of
                  Inl e \<Rightarrow> Inl e
                | Inr fecha \<Rightarrow> Inr (strftime_ymd fecha @ extension archivo))))"



subsection \<open>What a run without error leaves behind\<close>

text \<open>
  The year and the day of the year that the base name of an entry stands for when its
  characters are decimal digits: the values of the variables \<open>anio\<close> and \<open>dia_juliano\<close>
  of the source.
\<close>

definition anio :: "string \<Rightarrow> nat" where
  "anio archivo = int_of_digits (take 4 (nombre archivo))"

definition dia_juliano :: "string \<Rightarrow> nat" where
  "dia_juliano archivo = int_of_digits (drop 4 (nombre archivo))"



text \<open>The name an entry has in the returned list: the date and the extension, or the entry.\<close>

definition iso_name :: "string \<Rightarrow> string" where
  "iso_name archivo =
     (if is_julian_name archivo
      then strftime_ymd (julian_to_date (anio archivo) (dia_juliano archivo)) @ extension archivo
      else archivo)"

text \<open>The directory after the rename of one entry.\<close>

definition rename_entry :: "'a disk \<Rightarrow> string \<Rightarrow> 'a disk" where
  "rename_entry fs archivo =
     (if is_julian_name archivo
      then (case os_rename archivo (iso_name archivo) fs of Inl e \<Rightarrow> fs | Inr fs' \<Rightarrow> fs')
      else fs)"


section \<open>\<open>merge_files\<close>\<close>

subsection \<open>The range of dates and the file names\<close>

text \<open>
  \<open>end_date - timedelta(days=1)\<close>: the first day of year 1 has no day before it, and the
  subtraction raises \<open>OverflowError\<close>.
\<close>

definition minus_one_day :: "date \<Rightarrow> pyerr + date" where
  "minus_one_day d = (if d = Date 1 1 1 then Inl OverflowError else Inr (prev_day d))"

text \<open>
  \<open>pd.date_range(start, end)\<close> with the default daily frequency: day by day from the
  start to the end, both included, and empty when the end is before the start. The
  bounds pandas puts on its timestamps (years 1677 to 2262) are not modelled.
\<close>

primrec days_from :: "date \<Rightarrow> nat \<Rightarrow> date list" where
  "days_from d 0 = []"
| "days_from d (Suc n) = d # days_from (next_day d) n"

definition pd_date_range :: "date \<Rightarrow> date \<Rightarrow> date list" where
  "pd_date_range start stop = days_from start (toordinal stop + 1 - toordinal start)"

definition date_range :: "date \<Rightarrow> date \<Rightarrow> pyerr + date list" where
  "date_range start_date end_date =
     (case minus_one_day end_date of
        Inl e \<Rightarrow> Inl e
      | Inr stop \<Rightarrow> Inr (pd_date_range start_date stop))"

text \<open>\<open>f'{data_folder}{year}-{month}-{day}.{file_type}'\<close> with \<open>month\<close> and \<open>day\<close> filled to two digits.\<close>

definition filename :: "string \<Rightarrow> string \<Rightarrow> date \<Rightarrow> string" where
  "filename data_folder file_type d =
     data_folder @ str_nat (year d) @ ''-'' @ zfill 2 (str_nat (month d)) @ ''-'' @
     zfill 2 (str_nat (day d)) @ ''.'' @ file_type"

subsection \<open>Datasets and the files of the run\<close>

text \<open>
  Of an xarray dataset the model keeps what \<open>merge_files\<close> depends on: the size of its
  \<open>time\<close> dimension (\<open>None\<close> when it has none) and the names \<open>ds[name]\<close> finds, data
  variables and coordinates. Cell values and spatial coordinates are not represented.
\<close>

record dataset =
  time_size :: "nat option"
  var_names :: "string list"

text \<open>A raster opened by \<open>rasterio\<close>: its size and the six coefficients of its transform.\<close>

record raster =
  height :: nat
  width :: nat
  transform :: "rat list"

text \<open>
  The coordinates the source derives from the transform,
  \<open>transform[5] + transform[4] * arange(height)\<close> and
  \<open>transform[2] + transform[0] * arange(width)\<close>.
\<close>

definition latitudes :: "raster \<Rightarrow> rat list" where
  "latitudes src = map (\<lambda>i. transform src ! 5 + transform src ! 4 * of_nat i) [0..<height src]"

definition longitudes :: "raster \<Rightarrow> rat list" where
  "longitudes src = map (\<lambda>j. transform src ! 2 + transform src ! 0 * of_nat j) [0..<width src]"

text \<open>
  The dataset made of the first band: dimensions \<open>lat\<close> and \<open>lon\<close>, no \<open>time\<close>, one
  data variable named \<open>variable_name\<close>. \<open>to_dataset(name=variable_name)\<close> raises when
  the name is that of one of the two coordinates.
\<close>

definition raster_dataset :: "string \<Rightarrow> raster \<Rightarrow> pyerr + dataset" where
  "raster_dataset variable_name src =
     (if variable_name = ''lat'' \<or> variable_name = ''lon''
      then Inl (ValueError
             ''cannot create a Dataset from a DataArray with the same name as one of its coordinates'')
      else Inr \<lparr>time_size = None, var_names = [variable_name, ''lat'', ''lon'']\<rparr>)"

text \<open>
  What the run finds outside: which paths exist, and what \<open>xr.open_dataset\<close> and
  \<open>rasterio.open\<close> give for a path, a value or the exception they raise.
\<close>

record env =
  path_exists :: "string \<Rightarrow> bool"
  open_dataset :: "string \<Rightarrow> pyerr + dataset"
  rasterio_open :: "string \<Rightarrow> pyerr + raster"

subsection \<open>The loop over the dates\<close>

text \<open>
  The state of the loop: the lists \<open>datasets\<close> and \<open>times\<close> of the source, the lines
  printed so far and the paths given to \<open>os.path.exists\<close> so far.
\<close>

record loop_state =
  datasets :: "dataset list"
  times :: "date list"
  printed :: "string list"
  probed :: "string list"

text \<open>The loop ends by running out of dates, by the \<open>return\<close> in its body or by an exception.\<close>

datatype loop_exit = Completed | Returned | Raised pyerr

fun merge_loop ::
  "env \<Rightarrow> string \<Rightarrow> string \<Rightarrow> string \<Rightarrow> date list \<Rightarrow> loop_state \<Rightarrow> loop_exit \<times> loop_state" where
  "merge_loop e data_folder file_type variable_name [] st = (Completed, st)"
| "merge_loop e data_folder file_type variable_name (d # rest) st =
     (let fname = filename data_folder file_type d;
          st1 = st\<lparr>probed := probed st @ [fname]\<rparr>
      in if path_exists e fname then
           if file_type = ''nc'' then
             (case open_dataset e fname of
                Inl err \<Rightarrow> (Raised err, st1)
              | Inr ds \<Rightarrow>
                  merge_loop e data_folder file_type variable_name rest
                    (st1\<lparr>datasets := datasets st1 @ [ds], times := times st1 @ [d]\<rparr>))
           else if file_type = ''tif'' then
             (case rasterio_open e fname of
                Inl err \<Rightarrow> (Raised err, st1)
              | Inr src \<Rightarrow>
                  (case raster_dataset variable_name src of
                     Inl err \<Rightarrow> (Raised err, st1)
                   | Inr ds \<Rightarrow>
                       merge_loop e data_folder file_type variable_name rest
                         (st1\<lparr>datasets := datasets st1 @ [ds], times := times st1 @ [d]\<rparr>)))
           else (Returned, st1\<lparr>printed := printed st1 @ [''Unsupported file type: '' @ file_type]\<rparr>)
         else
           merge_loop e data_folder file_type variable_name rest
             (st1\<lparr>printed := printed st1 @ [''File not found: '' @ fname]\<rparr>))"

subsection \<open>After the loop\<close>

text \<open>
  \<open>xr.concat(datasets, dim='time')\<close> raises on an empty list. When no dataset has the
  dimension, each becomes one step of a new dimension; when all have it, their steps
  follow one another; when only some have it, the call raises. The result has the names
  of all the datasets.
\<close>

definition xr_concat :: "dataset list \<Rightarrow> pyerr + dataset" where
  "xr_concat dss =
     (if dss = [] then Inl (ValueError ''must supply at least one object to concatenate'')
      else if list_all (\<lambda>ds. time_size ds = None) dss
      then Inr \<lparr>time_size = Some (length dss), var_names = remdups (concat (map var_names dss))\<rparr>
      else if list_all (\<lambda>ds. time_size ds \<noteq> None) dss
      then Inr \<lparr>time_size = Some (sum_list (map (\<lambda>ds. the (time_size ds)) dss)),
                var_names = remdups (concat (map var_names dss))\<rparr>
      else Inl (ValueError ''time is not present in all datasets''))"

text \<open>
  The combined dataset before it is written: its time coordinate, its names and the
  units attribute set on \<open>variable_name\<close>.
\<close>

record merged =
  time_coord :: "date list"
  merged_names :: "string list"
  units_attr :: "string \<times> string"

text \<open>
  \<open>combined_ds['time'] = times\<close> raises when the list has not the size of the
  dimension; \<open>combined_ds[variable_name]\<close> raises \<open>KeyError\<close> on a name the dataset has not.
\<close>

definition finish :: "dataset \<Rightarrow> date list \<Rightarrow> string \<Rightarrow> string \<Rightarrow> pyerr + merged" where
  "finish combined_ds ts variable_name units =
     (if time_size combined_ds \<noteq> Some (length ts)
      then Inl (ValueError ''conflicting sizes for dimension time'')
      else if variable_name \<notin> set (var_names combined_ds) \<union> {''time''}
      then Inl (KeyError variable_name)
      else Inr \<lparr>time_coord = ts, merged_names = var_names combined_ds,
                units_attr = (variable_name, units)\<rparr>)"

text \<open>
  \<open>to_netcdf\<close> stores the time coordinate as whole numbers of days since its first
  value (since the first of January 1970 when it is empty), with that date in the
  \<open>units\<close> of the coordinate. It raises when the coordinate already has a \<open>units\<close>
  attribute, which is the case after \<open>combined_ds['time'].attrs['units'] = units\<close>. The
  output path is taken to be writable.
\<close>

record netcdf_file =
  days_since :: date
  day_offsets :: "int list"
  file_names :: "string list"
  file_units :: "string \<times> string"

definition encode_times :: "date list \<Rightarrow> date \<times> int list" where
  "encode_times ts =
     (case ts of
        [] \<Rightarrow> (Date 1970 1 1, [])
      | first # others \<Rightarrow>
          (first, map (\<lambda>d. int (toordinal d) - int (toordinal first)) ts))"

definition to_netcdf :: "merged \<Rightarrow> pyerr + netcdf_file" where
  "to_netcdf m =
     (if fst (units_attr m) = ''time''
      then Inl (ValueError ''failed to prevent overwriting existing key units in attrs'')
      else Inr \<lparr>days_since = fst (encode_times (time_coord m)),
                day_offsets = snd (encode_times (time_coord m)),
                file_names = merged_names m, file_units = units_attr m\<rparr>)"

text \<open>
  A run of \<open>merge_files\<close>: the exception it raised, if any (the function returns nothing),
  the lines it printed in the loop, the dataset it printed at the end, if any, the paths
  it probed and the file it wrote, if any. \<open>print(combined_ds)\<close> comes after
  \<open>to_netcdf\<close>.
\<close>

record merge_run =
  raised :: "pyerr option"
  output_lines :: "string list"
  shown_dataset :: "merged option"
  probed_files :: "string list"
  written :: "(string \<times> netcdf_file) option"

definition merge_files ::
  "env \<Rightarrow> date \<Rightarrow> date \<Rightarrow> string \<Rightarrow> string \<Rightarrow> string \<Rightarrow> string \<Rightarrow> string \<Rightarrow> merge_run" where
  "merge_files e start_date end_date data_folder output_folder file_type units variable_name =
     (case date_range start_date end_date of
        Inl err \<Rightarrow>
          \<lparr>raised = Some err, output_lines = [], shown_dataset = None, probed_files = [],
           written = None\<rparr>
      | Inr dates \<Rightarrow>
          (case merge_loop e data_folder file_type variable_name dates
                  \<lparr>datasets = [], times = [], printed = [], probed = []\<rparr> of
             (Raised err, st) \<Rightarrow>
               \<lparr>raised = Some err, output_lines = printed st, shown_dataset = None,
                probed_files = probed st, written = None\<rparr>
           | (Returned, st) \<Rightarrow>
               \<lparr>raised = None, output_lines = printed st, shown_dataset = None,
                probed_files = probed st, written = None\<rparr>
           | (Completed, st) \<Rightarrow>
               (case xr_concat (datasets st) of
                  Inl err \<Rightarrow>
                    \<lparr>raised = Some err, output_lines = printed st, shown_dataset = None,
                     probed_files = probed st, written = None\<rparr>
                | Inr combined_ds \<Rightarrow>
                    (case finish combined_ds (times st) variable_name units of
                       Inl err \<Rightarrow>
                         \<lparr>raised = Some err, output_lines = printed st, shown_dataset = None,
                          probed_files = probed st, written = None\<rparr>
                     | Inr m \<Rightarrow>
                         (case to_netcdf m of
                            Inl err \<Rightarrow>
                              \<lparr>raised = Some err, output_lines = printed st,
                               shown_dataset = None, probed_files = probed st,
                               written = None\<rparr>
                          | Inr file \<Rightarrow>
                              \<lparr>raised = None, output_lines = printed st,
                               shown_dataset = Some m, probed_files = probed st,
                               written = Some (output_folder, file)\<rparr>)))))"

subsection \<open>Notions used to state what a run does\<close>

text \<open>The dates the loop runs over; none when the range itself raised.\<close>

definition iterated_dates :: "date \<Rightarrow> date \<Rightarrow> date list" where
  "iterated_dates start_date end_date =
     (case date_range start_date end_date of Inl e \<Rightarrow> [] | Inr dates \<Rightarrow> dates)"

text \<open>
  The dataset the body of the loop appends for an existing path: none when the opening
  or the making of the dataset raises, and none for a file type that is neither \<open>nc\<close>
  nor \<open>tif\<close>.
\<close>

definition loaded :: "env \<Rightarrow> string \<Rightarrow> string \<Rightarrow> string \<Rightarrow> dataset option" where
  "loaded e file_type variable_name fname =
     (if file_type = ''nc'' then
        (case open_dataset e fname of Inl err \<Rightarrow> None | Inr ds \<Rightarrow> Some ds)
      else if file_type = ''tif'' then
        (case rasterio_open e fname of
           Inl err \<Rightarrow> None
         | Inr src \<Rightarrow>
             (case raster_dataset variable_name src of Inl err \<Rightarrow> None | Inr ds \<Rightarrow> Some ds))
      else None)"

text \<open>
  The loop is left at a date whose file exists and does not load: the \<open>return\<close> for a
  file type that is neither \<open>nc\<close> nor \<open>tif\<close>, or an exception.
\<close>

definition stops :: "env \<Rightarrow> string \<Rightarrow> string \<Rightarrow> string \<Rightarrow> bool" where
  "stops e file_type variable_name fname =
     (path_exists e fname \<and> loaded e file_type variable_name fname = None)"

text \<open>
  A single-day file: it loads into a dataset that has the variable that receives the
  units and whose \<open>time\<close> dimension is \<open>k\<close>: absent, or of size one.
\<close>

definition single_day :: "env \<Rightarrow> string \<Rightarrow> string \<Rightarrow> nat option \<Rightarrow> string \<Rightarrow> bool" where
  "single_day e file_type variable_name k fname =
     (case loaded e file_type variable_name fname of
        None \<Rightarrow> False
      | Some ds \<Rightarrow>
          time_size ds = k \<and> (k = None \<or> k = Some 1) \<and> variable_name \<in> set (var_names ds))"

text \<open>
  Reading the time coordinate back from the file a run wrote at \<open>path\<close>:
  \<open>xr.open_dataset\<close> decodes each stored number into the date that many days after the
  date of the units, or before it for a negative number.
\<close>

primrec sub_days :: "date \<Rightarrow> nat \<Rightarrow> date" where
  "sub_days d 0 = d"
| "sub_days d (Suc n) = sub_days (prev_day d) n"

definition shift_days :: "date \<Rightarrow> int \<Rightarrow> date" where
  "shift_days d k = (if 0 \<le> k then add_days d (nat k) else sub_days d (nat (- k)))"

definition decode_times :: "netcdf_file \<Rightarrow> date list" where
  "decode_times file = map (shift_days (days_since file)) (day_offsets file)"

definition read_time :: "merge_run \<Rightarrow> string \<Rightarrow> date list option" where
  "read_time r path =
     (case written r of
        None \<Rightarrow> None
      | Some (p, file) \<Rightarrow> if p = path then Some (decode_times file) else None)"

text \<open>
  Surroundings for examples: a folder with no file at all, a folder with the rasters
  of the 8th and the 10th of April 2024 but not of the 9th, a folder where every path
  is a raster, and a folder that holds a file of an unknown type for the 8th.
\<close>

definition a_raster :: raster where
  "a_raster = \<lparr>height = 2, width = 2, transform = [1, 0, 0, 0, -1, 0]\<rparr>"

definition empty_folder :: env where
  "empty_folder =
     \<lparr>path_exists = (\<lambda>p. False),
      open_dataset = (\<lambda>p. Inl (FileNotFoundError p)),
      rasterio_open = (\<lambda>p. Inl (FileNotFoundError p))\<rparr>"

definition april_folder :: env where
  "april_folder =
     \<lparr>path_exists = (\<lambda>p. p = ''d/2024-04-08.tif'' \<or> p = ''d/2024-04-10.tif''),
      open_dataset = (\<lambda>p. Inl (OSError p)),
      rasterio_open = (\<lambda>p. Inr a_raster)\<rparr>"

definition full_folder :: env where
  "full_folder =
     \<lparr>path_exists = (\<lambda>p. True),
      open_dataset = (\<lambda>p. Inl (OSError p)),
      rasterio_open = (\<lambda>p. Inr a_raster)\<rparr>"

definition xyz_folder :: env where
  "xyz_folder =
     \<lparr>path_exists = (\<lambda>p. p = ''d/2024-04-08.xyz''),
      open_dataset = (\<lambda>p. Inl (OSError p)),
      rasterio_open = (\<lambda>p. Inl (OSError p))\<rparr>"

section \<open>Gridded datasets and vector layers\<close>

text \<open>
  The other operations read the cells of a grid. A cell holds a number or not-a-number
  (\<open>None\<close>); floating-point numbers are taken as reals. xarray addresses a cell by the
  labels of its coordinates, so the values of a variable are a function of the step
  along its leading dimension (the time index; one step for a variable without it) and
  of the latitude and longitude labels.
\<close>

type_synonym cell = "real option"

record grid_variable =
  var_dims :: "string list"
  var_units :: "string option"
  var_values :: "nat \<Rightarrow> real \<Rightarrow> real \<Rightarrow> cell"

text \<open>The values of the time coordinate are calendar-aware objects or plain timestamps.\<close>

datatype time_axis = CftimeGregorian "date list" | Datetime64 "date list"

fun axis_dates :: "time_axis \<Rightarrow> date list" where
  "axis_dates (CftimeGregorian ds) = ds"
| "axis_dates (Datetime64 ds) = ds"

text \<open>
  A dataset: the names of its dimensions (\<open>ds.dims\<close>), the labels along the latitude and
  the longitude dimension, its time coordinate, the arrays \<open>ds[name]\<close> finds (data
  variables and coordinates), the names of the data variables in the order of
  \<open>ds.data_vars\<close>, and the names of its attributes.
\<close>

record grid_dataset =
  dim_names :: "string list"
  lat_coords :: "real list"
  lon_coords :: "real list"
  time_values :: time_axis
  variables :: "(string \<times> grid_variable) list"
  data_var_names :: "string list"
  attr_names :: "string list"

text \<open>The number of steps of a variable: the length of the time axis when it has the dimension.\<close>

definition n_steps :: "grid_dataset \<Rightarrow> string \<Rightarrow> grid_variable \<Rightarrow> nat" where
  "n_steps ds time_dim v =
     (if time_dim \<in> set (var_dims v) then length (axis_dates (time_values ds)) else 1)"

text \<open>
  A record of a vector layer: its attribute columns and, of its geometry, what the
  operations use: the centroid, and which cells of a grid \<open>rio.clip\<close> finds inside the
  polygon (given by latitude and longitude label, after any reprojection).
\<close>

record feature =
  props :: "(string \<times> string) list"
  centroid_x :: real
  centroid_y :: real
  inside :: "real \<Rightarrow> real \<Rightarrow> bool"

text \<open>Mean and standard deviation as xarray computes them by default: not-a-number cells are skipped.\<close>

definition numbers :: "cell list \<Rightarrow> real list" where
  "numbers cs = map the (filter (\<lambda>c. c \<noteq> None) cs)"

definition nanmean :: "cell list \<Rightarrow> cell" where
  "nanmean cs =
     (if numbers cs = [] then None
      else Some (sum_list (numbers cs) / real (length (numbers cs))))"

definition nanstd :: "cell list \<Rightarrow> cell" where
  "nanstd cs =
     (case nanmean cs of
        None \<Rightarrow> None
      | Some m \<Rightarrow>
          Some (sqrt (sum_list (map (\<lambda>v. (v - m)\<^sup>2) (numbers cs)) / real (length (numbers cs)))))"

section \<open>\<open>plot_nc_file\<close>\<close>

text \<open>The message of the \<open>ValueError\<close> raised for a variable the dataset has not.\<close>

definition no_se_encuentra :: "string \<Rightarrow> string \<Rightarrow> string" where
  "no_se_encuentra variable_name donde =
     ''La variable '' @ [CHR 0x27] @ variable_name @ [CHR 0x27] @ '' no se encuentra en el '' @
     donde @ ''.''"

text \<open>What \<open>savefig\<close> writes: the time axis, the mean line, the band and the labels.\<close>

record figure =
  fig_time :: "date list"
  fig_mean :: "cell list"
  fig_lower :: "cell list"
  fig_upper :: "cell list"
  fig_ylabel :: string
  fig_title :: string

definition cell_add :: "cell \<Rightarrow> cell \<Rightarrow> cell" where
  "cell_add a b = (case (a, b) of (Some x, Some y) \<Rightarrow> Some (x + y) | _ \<Rightarrow> None)"

definition cell_sub :: "cell \<Rightarrow> cell \<Rightarrow> cell" where
  "cell_sub a b = (case (a, b) of (Some x, Some y) \<Rightarrow> Some (x - y) | _ \<Rightarrow> None)"

text \<open>The cells of one step of a variable, over the whole grid.\<close>

definition step_cells :: "grid_dataset \<Rightarrow> grid_variable \<Rightarrow> nat \<Rightarrow> cell list" where
  "step_cells ds v t = concat (map (\<lambda>y. map (\<lambda>x. var_values v t y x) (lon_coords ds)) (lat_coords ds))"

text \<open>
  The function, given what \<open>xr.open_dataset\<close> returns for a path. The result is the
  exception raised, or the path and the content of the image written: the file is
  written by the last statement but one, so a run that raises writes nothing. The time
  coordinate is the one named \<open>time_dim\<close>; calendar-aware values are turned into plain
  dates of the same day.
\<close>

definition plot_nc_file ::
  "(string \<Rightarrow> pyerr + grid_dataset) \<Rightarrow> string \<Rightarrow> string \<Rightarrow> string \<Rightarrow> string \<Rightarrow> string \<Rightarrow>
     string \<Rightarrow> pyerr + (string \<times> figure)" where
  "plot_nc_file xr_open file_path variable_name save_path lon_dim lat_dim time_dim =
     (case xr_open file_path of
        Inl err \<Rightarrow> Inl err
      | Inr dataset \<Rightarrow>
          (case map_of (variables dataset) variable_name of
             None \<Rightarrow> Inl (ValueError (no_se_encuentra variable_name ''archivo''))
           | Some v \<Rightarrow>
               if lon_dim \<notin> set (var_dims v) \<or> lat_dim \<notin> set (var_dims v)
               then Inl (ValueError ''dimension not found in the variable'')
               else if map_of (variables dataset) time_dim = None
               then Inl (KeyError time_dim)
               else
                 (let steps = [0..<n_steps dataset time_dim v];
                      daily_mean = map (\<lambda>t. nanmean (step_cells dataset v t)) steps;
                      daily_std = map (\<lambda>t. nanstd (step_cells dataset v t)) steps;
                      time = axis_dates (time_values dataset)
                  in if time = [] then Inl (IndexError ''index 0 is out of bounds'')
                     else if length time \<noteq> length daily_mean
                     then Inl (ValueError ''x and y must have same first dimension'')
                     else
                       Inr (save_path @ variable_name,
                            \<lparr>fig_time = time,
                             fig_mean = daily_mean,
                             fig_lower = map2 cell_sub daily_mean daily_std,
                             fig_upper = map2 cell_add daily_mean daily_std,
                             fig_ylabel =
                               variable_name @ '' ('' @
                               (case var_units v of None \<Rightarrow> ''unidades'' | Some u \<Rightarrow> u) @ '')'',
                             fig_title =
                               ''Promedio diario de '' @ variable_name @
                               '' con rango de incertidumbre''\<rparr>))))"

section \<open>\<open>country_crop\<close>\<close>





section \<open>\<open>regions_crop\<close>\<close>







section \<open>\<open>calculate_daily_mean_per_municipality\<close>\<close>

text \<open>
  \<open>sel(..., method='nearest')\<close> along one coordinate: pandas refuses an index with a
  repeated label, looks the target up in a monotonic index and takes the label at the
  smallest distance of the target, the larger label when two are as near.
\<close>

fun nearest_of :: "real \<Rightarrow> real \<Rightarrow> real list \<Rightarrow> real" where
  "nearest_of target best [] = best"
| "nearest_of target best (c # cs) =
     (if \<bar>c - target\<bar> < \<bar>best - target\<bar> \<or> (\<bar>c - target\<bar> = \<bar>best - target\<bar> \<and> best < c)
      then nearest_of target c cs
      else nearest_of target best cs)"

definition sel_nearest :: "real list \<Rightarrow> real \<Rightarrow> pyerr + real" where
  "sel_nearest labels target =
     (case labels of
        [] \<Rightarrow> Inl (KeyError ''not all values found in index'')
      | c # cs \<Rightarrow>
          if \<not> distinct labels then Inl InvalidIndexError
          else if sorted labels \<or> sorted (rev labels) then Inr (nearest_of target c cs)
          else Inl (ValueError ''index must be monotonic increasing or decreasing''))"

text \<open>The table returned: the names of its columns and its rows.\<close>

record result_table =
  columns :: "string list"
  table_rows :: "(string \<times> string \<times> cell) list"

text \<open>
  The body of the loop for one municipality: the variable at the cell nearest to the
  centroid, its mean over \<open>time\<close>, then the two labels of the row.
\<close>

definition municipality_row ::
  "grid_dataset \<Rightarrow> grid_variable \<Rightarrow> string \<Rightarrow> string \<Rightarrow> string \<Rightarrow> string \<Rightarrow> feature \<Rightarrow>
     pyerr + (string \<times> string \<times> cell)" where
  "municipality_row dataset v lon_dim lat_dim region_column municipality_column municipality =
     (if lon_dim \<notin> set (var_dims v) \<or> lat_dim \<notin> set (var_dims v)
      then Inl (KeyError ''dimension not found in the variable'')
      else
        (case sel_nearest (lon_coords dataset) (centroid_x municipality) of
           Inl err \<Rightarrow> Inl err
         | Inr x \<Rightarrow>
             (case sel_nearest (lat_coords dataset) (centroid_y municipality) of
                Inl err \<Rightarrow> Inl err
              | Inr y \<Rightarrow>
                  if ''time'' \<notin> set (var_dims v)
                  then Inl (ValueError ''time not found in array dimensions'')
                  else
                    (let daily_mean =
                           nanmean (map (\<lambda>t. var_values v t y x) [0..<n_steps dataset ''time'' v])
                     in case map_of (props municipality) region_column of
                          None \<Rightarrow> Inl (KeyError region_column)
                        | Some region \<Rightarrow>
                            (case map_of (props municipality) municipality_column of
                               None \<Rightarrow> Inl (KeyError municipality_column)
                             | Some municipio \<Rightarrow> Inr (region, municipio, daily_mean))))))"

fun municipalities_loop ::
  "(feature \<Rightarrow> pyerr + (string \<times> string \<times> cell)) \<Rightarrow> feature list \<Rightarrow>
     (string \<times> string \<times> cell) list \<Rightarrow> pyerr + (string \<times> string \<times> cell) list" where
  "municipalities_loop row [] results = Inr results"
| "municipalities_loop row (municipality # municipalities) results =
     (case row municipality of
        Inl err \<Rightarrow> Inl err
      | Inr new_row \<Rightarrow> municipalities_loop row municipalities (results @ [new_row]))"

text \<open>
  The function, given what \<open>gpd.read_file\<close> and \<open>xr.open_dataset\<close> return. It returns the
  table or raises; it writes no file: the call of \<open>to_csv\<close> is a comment in the source,
  and the model has no file in its result.
\<close>

definition calculate_daily_mean_per_municipality ::
  "(string \<Rightarrow> pyerr + feature list) \<Rightarrow> (string \<Rightarrow> pyerr + grid_dataset) \<Rightarrow>
     string \<Rightarrow> string \<Rightarrow> string \<Rightarrow> string \<Rightarrow> string \<Rightarrow> string \<Rightarrow> pyerr + result_table" where
  "calculate_daily_mean_per_municipality read_file xr_open shapefile_path netcdf_file
       variable_name region_column municipality_column units =
     (case read_file shapefile_path of
        Inl err \<Rightarrow> Inl err
      | Inr municipalities \<Rightarrow>
          (case xr_open netcdf_file of
             Inl err \<Rightarrow> Inl err
           | Inr dataset \<Rightarrow>
               (case map_of (variables dataset) variable_name of
                  None \<Rightarrow> Inl (ValueError (no_se_encuentra variable_name ''archivo NetCDF''))
                | Some v \<Rightarrow>
                    (let lon_dim = (if ''lon'' \<in> set (dim_names dataset) then ''lon'' else ''x'');
                         lat_dim = (if ''lat'' \<in> set (dim_names dataset) then ''lat'' else ''y'')
                     in case municipalities_loop
                               (municipality_row dataset v lon_dim lat_dim region_column
                                  municipality_column)
                               municipalities [] of
                          Inl err \<Rightarrow> Inl err
                        | Inr results \<Rightarrow>
                            Inr \<lparr>columns =
                                   (if results = [] then []
                                    else [''region'', ''municipio'',
                                          variable_name @ ''_promedio ('' @ units @ '')'']),
                                 table_rows = results\<rparr>))))"

section \<open>A small grid and a small layer for examples\<close>

text \<open>
  A grid of two latitudes, two longitudes and two days with one variable \<open>rain\<close>; a mask
  over the same grid that is 0 in the corner \<open>(0, 0)\<close> and 1 elsewhere; the grid and the
  mask cut down to the cell of the corner; the grid with its spatial dimensions named
  \<open>latitude\<close> and \<open>longitude\<close>; and a layer of two records, the first covering the row
  of latitude 1, the second the corner only.
\<close>

definition rain :: grid_variable where
  "rain =
     \<lparr>var_dims = [''time'', ''lat'', ''lon''], var_units = Some ''mm'',
      var_values = (\<lambda>t y x. Some (real t + y + 2 * x))\<rparr>"

definition two_by_two :: grid_dataset where
  "two_by_two =
     \<lparr>dim_names = [''time'', ''lat'', ''lon''], lat_coords = [0, 1], lon_coords = [0, 1],
      time_values = Datetime64 [Date 2024 4 8, Date 2024 4 9],
      variables = [(''rain'', rain)], data_var_names = [''rain''], attr_names = []\<rparr>"

definition corner :: grid_variable where
  "corner =
     \<lparr>var_dims = [''lat'', ''lon''], var_units = None,
      var_values = (\<lambda>t y x. if y = 0 \<and> x = 0 then Some 0 else Some 1)\<rparr>"

definition corner_mask :: grid_dataset where
  "corner_mask =
     \<lparr>dim_names = [''lat'', ''lon''], lat_coords = [0, 1], lon_coords = [0, 1],
      time_values = Datetime64 [],
      variables = [(''mask'', corner)], data_var_names = [''mask''], attr_names = []\<rparr>"

definition one_cell :: grid_dataset where
  "one_cell = two_by_two\<lparr>lat_coords := [0], lon_coords := [0]\<rparr>"

definition one_cell_mask :: grid_dataset where
  "one_cell_mask = corner_mask\<lparr>lat_coords := [0], lon_coords := [0]\<rparr>"

definition long_names :: grid_dataset where
  "long_names = two_by_two\<lparr>dim_names := [''time'', ''latitude'', ''longitude'']\<rparr>"

definition example_files :: "string \<Rightarrow> pyerr + grid_dataset" where
  "example_files p =
     (if p = ''data.nc'' then Inr two_by_two
      else if p = ''mask.nc'' then Inr corner_mask
      else if p = ''cell.nc'' then Inr one_cell
      else if p = ''cellmask.nc'' then Inr one_cell_mask
      else if p = ''long.nc'' then Inr long_names
      else Inl (FileNotFoundError p))"

definition norte :: feature where
  "norte =
     \<lparr>props = [(''Nombre'', ''Norte''), (''NAME_1'', ''R1''), (''NAME_2'', ''M1'')],
      centroid_x = 1 / 4, centroid_y = 9 / 10, inside = (\<lambda>y x. y = 1)\<rparr>"

definition sur :: feature where
  "sur =
     \<lparr>props = [(''Nombre'', ''Sur''), (''NAME_1'', ''R2''), (''NAME_2'', ''M2'')],
      centroid_x = 1, centroid_y = 0, inside = (\<lambda>y x. y = 0 \<and> x = 0)\<rparr>"

definition example_layers :: "string \<Rightarrow> pyerr + feature list" where
  "example_layers p =
     (if p = ''regions.shp'' then Inr [norte, sur] else Inl (FileNotFoundError p))"

(* PROPERTIES *)

section \<open>Properties of the calendar\<close>

lemma div_Suc_if: "Suc n div k = (if Suc n mod k = 0 then Suc (n div k) else n div k)"
  by (simp add: div_Suc mod_Suc)

lemma days_before_year_Suc:
  "1 \<le> y \<Longrightarrow> days_before_year (y + 1) = days_before_year y + days_in_year y"
proof -
  assume "1 \<le> y"
  then obtain n where y: "y = Suc n" by (cases y) auto
  define a b c where "a = n div 4" and "b = n div 100" and "c = n div 400"
  have le: "b \<le> a"
    unfolding a_def b_def by (rule div_le_mono2) simp_all
  have m4: "Suc n mod 100 = 0 \<Longrightarrow> Suc n mod 4 = 0"
    using mod_mod_cancel [of 4 100 "Suc n"] by simp
  have m100: "Suc n mod 400 = 0 \<Longrightarrow> Suc n mod 100 = 0"
    using mod_mod_cancel [of 100 400 "Suc n"] by simp
  have d4: "Suc n div 4 = (if Suc n mod 4 = 0 then Suc a else a)"
    unfolding a_def by (rule div_Suc_if)
  have d100: "Suc n div 100 = (if Suc n mod 100 = 0 then Suc b else b)"
    unfolding b_def by (rule div_Suc_if)
  have d400: "Suc n div 400 = (if Suc n mod 400 = 0 then Suc c else c)"
    unfolding c_def by (rule div_Suc_if)
  have "365 * Suc n + Suc n div 4 - Suc n div 100 + Suc n div 400 =
        365 * n + a - b + c + (if is_leap (Suc n) then 366 else 365)"
    unfolding d4 d100 d400 is_leap_def using le m4 m100
    by (cases "Suc n mod 4 = 0"; cases "Suc n mod 100 = 0"; cases "Suc n mod 400 = 0") simp_all
  then have main: "365 * Suc n + Suc n div 4 - Suc n div 100 + Suc n div 400 =
        365 * n + n div 4 - n div 100 + n div 400 + (if is_leap y then 366 else 365)"
    unfolding a_def b_def c_def y .
  have e: "y + 1 - 1 = Suc n" "y - 1 = n"
    using y by simp_all
  show ?thesis
    unfolding days_before_year_def days_in_year_def e by (rule main)
qed


lemma month_cases:
  "1 \<le> m \<Longrightarrow> m \<le> 12 \<Longrightarrow>
     m = 1 \<or> m = 2 \<or> m = 3 \<or> m = 4 \<or> m = 5 \<or> m = 6 \<or>
     m = 7 \<or> m = 8 \<or> m = 9 \<or> m = 10 \<or> m = 11 \<or> m = (12::nat)"
  by arith

lemma days_before_month_Suc:
  "1 \<le> m \<Longrightarrow> m < 12 \<Longrightarrow>
     days_before_month y (m + 1) = days_before_month y m + days_in_month y m"
  using month_cases [of m]
  by (auto simp: days_before_month_def days_in_month_def)

lemma days_before_month_12:
  "days_before_month y 12 + days_in_month y 12 = days_in_year y"
  by (simp add: days_before_month_def days_in_month_def days_in_year_def)

lemma days_before_month_1: "days_before_month y 1 = 0"
  by (simp add: days_before_month_def)

lemma days_in_month_pos: "0 < days_in_month y m"
  by (simp add: days_in_month_def)

lemma day_of_year_le:
  assumes "valid_date d"
  shows "day_of_year d \<le> days_in_year (year d)"
proof -
  from assms have m: "1 \<le> month d" "month d \<le> 12"
    and dd: "day d \<le> days_in_month (year d) (month d)"
    by (simp_all add: valid_date_def)
  from month_cases [OF m] dd show ?thesis
    by (auto simp: day_of_year_def days_before_month_def days_in_month_def days_in_year_def
        split: if_splits)
qed

lemma day_of_year_last:
  assumes "valid_date d" "day_of_year d = days_in_year (year d)"
  shows "month d = 12 \<and> day d = 31"
proof -
  from assms have m: "1 \<le> month d" "month d \<le> 12"
    and dd: "day d \<le> days_in_month (year d) (month d)"
    by (simp_all add: valid_date_def)
  from month_cases [OF m] dd assms(2) show ?thesis
    by (auto simp: day_of_year_def days_before_month_def days_in_month_def days_in_year_def
        split: if_splits)
qed

lemma next_day_within_year:
  assumes "valid_date d" "day_of_year d < days_in_year (year d)"
  shows "year (next_day d) = year d \<and> day_of_year (next_day d) = day_of_year d + 1 \<and>
         valid_date (next_day d)"
proof (cases "day d < days_in_month (year d) (month d)")
  case True
  with assms(1) show ?thesis
    by (simp add: next_day_def day_of_year_def valid_date_def)
next
  case False
  with assms(1) have last: "day d = days_in_month (year d) (month d)"
    by (simp add: valid_date_def)
  have "month d \<noteq> 12"
  proof
    assume "month d = 12"
    with last have "day_of_year d = days_in_year (year d)"
      using days_before_month_12 [of "year d"] by (simp add: day_of_year_def)
    with assms(2) show False by simp
  qed
  with assms(1) have m: "1 \<le> month d" "month d < 12"
    by (simp_all add: valid_date_def)
  from assms(1) have y: "1 \<le> year d" "year d \<le> 9999"
    by (simp_all add: valid_date_def)
  show ?thesis
    using False m y last days_before_month_Suc [OF m, of "year d"]
      days_in_month_pos [of "year d" "month d + 1"]
    by (simp add: next_day_def day_of_year_def valid_date_def Suc_le_eq)
qed

lemma next_day_new_year:
  assumes "valid_date d" "day_of_year d = days_in_year (year d)"
  shows "next_day d = Date (year d + 1) 1 1"
  using day_of_year_last [OF assms] by (simp add: next_day_def days_in_month_def)

lemma toordinal_next_day:
  assumes "valid_date d"
  shows "toordinal (next_day d) = toordinal d + 1"
proof (cases "day_of_year d < days_in_year (year d)")
  case True
  from next_day_within_year [OF assms True] show ?thesis
    by (simp add: toordinal_def)
next
  case False
  with day_of_year_le [OF assms] have e: "day_of_year d = days_in_year (year d)"
    by simp
  from assms have "1 \<le> year d" by (simp add: valid_date_def)
  from days_before_year_Suc [OF this] next_day_new_year [OF assms e] e show ?thesis
    by (simp add: toordinal_def day_of_year_def days_before_month_def)
qed



lemma add_days_add: "add_days d (j + k) = add_days (add_days d j) k"
  by (induction j arbitrary: d) simp_all



section \<open>Properties of the decimal strings and of the date parser\<close>





lemma str_nat_digit: "n < 10 \<Longrightarrow> str_nat n = [digit_char n]"
  by (simp add: str_nat.simps)

lemma str_nat_step: "10 \<le> n \<Longrightarrow> str_nat n = str_nat (n div 10) @ [digit_char (n mod 10)]"
  by (subst str_nat.simps) simp
























lemma nuevo_nombre_superscript:
  assumes "\<not> list_all (\<lambda>c. c \<in> set digits10) (take 4 (nombre f))"
  shows "nuevo_nombre f =
     Inl (ValueError (''invalid literal for int() with base 10: '' @ py_repr (take 4 (nombre f))))"
  using assms by (simp add: nuevo_nombre_def int_str_def)

section \<open>Properties of \<open>translate_julian_dates\<close>\<close>

lemma digit_char_in: "k < 10 \<Longrightarrow> digit_char k \<in> set digits10"
  unfolding digit_char_def by (rule nth_mem) (simp add: digits10_def)

lemma str_nat_digits: "set (str_nat n) \<subseteq> set digits10 \<and> str_nat n \<noteq> []"
proof (induction n rule: str_nat.induct)
  case (1 n)
  show ?case
  proof (cases "n < 10")
    case True
    then show ?thesis by (simp add: str_nat_digit digit_char_in)
  next
    case False
    then have "str_nat n = str_nat (n div 10) @ [digit_char (n mod 10)]"
      by (simp add: str_nat_step)
    with 1 [OF False] show ?thesis by (simp add: digit_char_in)
  qed
qed

lemma set_zfill: "set (zfill w s) \<subseteq> insert (CHR ''0'') (set s)"
  by (auto simp: zfill_def)

lemma dot_not_digit: "CHR ''.'' \<notin> set digits10" "CHR ''-'' \<notin> set digits10"
  "CHR ''-'' \<notin> set superscripts"
  by (simp_all add: digits10_def superscripts_def)

lemma strftime_ymd_chars:
  "CHR ''.'' \<notin> set (strftime_ymd d)" "CHR ''-'' \<in> set (strftime_ymd d)"
proof -
  have "\<And>n. CHR ''.'' \<notin> set (str_nat n)"
    using str_nat_digits dot_not_digit(1) by blast
  moreover have "\<And>n. CHR ''.'' \<notin> set (zfill 2 (str_nat n))"
    using set_zfill [of 2] str_nat_digits dot_not_digit(1) by fastforce
  ultimately show "CHR ''.'' \<notin> set (strftime_ymd d)"
    by (simp add: strftime_ymd_def)
  show "CHR ''-'' \<in> set (strftime_ymd d)"
    by (simp add: strftime_ymd_def)
qed

lemma digit_val_digit_char: "k < 10 \<Longrightarrow> digit_val (digit_char k) = k"
proof -
  assume "k < 10"
  then have "k = 0 \<or> k = 1 \<or> k = 2 \<or> k = 3 \<or> k = 4 \<or> k = 5 \<or> k = 6 \<or> k = 7 \<or> k = 8 \<or> k = 9"
    by arith
  then show ?thesis
    by (elim disjE) (simp_all add: digit_char_def digits10_def digit_val_def)
qed

lemma int_of_digits_snoc: "int_of_digits (xs @ [c]) = 10 * int_of_digits xs + digit_val c"
  by (simp add: int_of_digits_def)

lemma int_of_digits_str_nat: "int_of_digits (str_nat n) = n"
proof (induction n rule: str_nat.induct)
  case (1 n)
  show ?case
  proof (cases "n < 10")
    case True
    then show ?thesis
      by (simp add: str_nat_digit int_of_digits_def digit_val_digit_char)
  next
    case False
    then have "str_nat n = str_nat (n div 10) @ [digit_char (n mod 10)]"
      by (simp add: str_nat_step)
    with 1 [OF False] show ?thesis
      by (simp add: int_of_digits_snoc digit_val_digit_char)
  qed
qed

lemma int_of_digits_zeros: "foldl (\<lambda>a c. 10 * a + digit_val c) 0 (replicate k (CHR ''0'')) = 0"
  by (induction k) (simp_all add: digit_val_def)

lemma int_of_digits_zfill: "int_of_digits (zfill w s) = int_of_digits s"
  by (simp add: zfill_def int_of_digits_def int_of_digits_zeros)

lemma length_str_nat_step: "10 \<le> n \<Longrightarrow> length (str_nat n) = Suc (length (str_nat (n div 10)))"
  by (simp add: str_nat_step)

lemma length_str_nat_le2: "n < 100 \<Longrightarrow> length (str_nat n) \<le> 2"
  by (cases "n < 10") (simp_all add: str_nat_digit length_str_nat_step)

lemma length_zfill2: "n < 100 \<Longrightarrow> length (zfill 2 (str_nat n)) = 2"
  using length_str_nat_le2 [of n] by (simp add: zfill_def)

lemma length_str_nat_year:
  assumes "1000 \<le> y" "y \<le> 9999"
  shows "length (str_nat y) = 4"
proof -
  from assms have a: "10 \<le> y" "10 \<le> y div 10" "10 \<le> y div 10 div 10" "y div 10 div 10 div 10 < 10"
    by simp_all
  show ?thesis
    by (simp add: length_str_nat_step [OF a(1)] length_str_nat_step [OF a(2)]
        length_str_nat_step [OF a(3)] str_nat_digit [OF a(4)])
qed

lemma zero_digit: "CHR ''0'' \<in> set digits10"
  by (simp add: digits10_def)

lemma zfill_digits: "set (zfill w (str_nat n)) \<subseteq> set digits10"
  using set_zfill [of w "str_nat n"] str_nat_digits [of n] zero_digit by auto

lemma splitext_no_dot: "CHR ''.'' \<notin> set p \<Longrightarrow> splitext p = (p, [])"
  by (auto simp: splitext_def dest: set_dropWhileD)

lemma splitext_ext:
  assumes "CHR ''.'' \<notin> set b" "b \<noteq> []" "CHR ''.'' \<notin> set e"
  shows "splitext (b @ CHR ''.'' # e) = (b, CHR ''.'' # e)"
proof -
  from assms(1,2) have "dropWhile (\<lambda>c. c = CHR ''.'') (b @ CHR ''.'' # e) = b @ CHR ''.'' # e"
    by (cases b) auto
  then have c: "CHR ''.'' \<in> set (dropWhile (\<lambda>c. c = CHR ''.'') (b @ CHR ''.'' # e))"
    by simp
  have r: "rev (b @ CHR ''.'' # e) = rev e @ CHR ''.'' # rev b"
    by simp
  have t: "takeWhile (\<lambda>c. c \<noteq> CHR ''.'') (rev e @ CHR ''.'' # rev b) = rev e"
    using assms(3) by (subst takeWhile_append2) auto
  have d: "dropWhile (\<lambda>c. c \<noteq> CHR ''.'') (rev e @ CHR ''.'' # rev b) = CHR ''.'' # rev b"
    using assms(3) by (subst dropWhile_append2) auto
  show ?thesis
    unfolding splitext_def r t d using c by simp
qed

lemma extension_shape:
  "extension f = [] \<or> (\<exists>e. extension f = CHR ''.'' # e \<and> CHR ''.'' \<notin> set e)"
  by (auto simp: extension_def splitext_def dest: set_takeWhileD)

lemma nombre_iso:
  "nombre (strftime_ymd d @ extension f) = strftime_ymd d"
proof -
  have ne: "strftime_ymd d \<noteq> []"
    using strftime_ymd_chars(2) [of d] by auto
  from extension_shape [of f] show ?thesis
  proof
    assume "extension f = []"
    then show ?thesis
      by (simp add: nombre_def splitext_no_dot strftime_ymd_chars)
  next
    assume "\<exists>e. extension f = CHR ''.'' # e \<and> CHR ''.'' \<notin> set e"
    then obtain e where e: "extension f = CHR ''.'' # e" "CHR ''.'' \<notin> set e" by blast
    show ?thesis
      unfolding e(1) nombre_def
      using splitext_ext [OF strftime_ymd_chars(1) ne e(2)] by simp
  qed
qed

lemma iso_name_not_julian:
  assumes "is_julian_name f"
  shows "\<not> is_julian_name (iso_name f)"
proof -
  have "\<not> str_isdigit (strftime_ymd d)" for d
    using strftime_ymd_chars(2) [of d] dot_not_digit(2,3)
    by (auto simp: str_isdigit_def list_all_iff)
  with assms show ?thesis
    by (simp add: iso_name_def is_julian_name_def nombre_iso)
qed



lemma rename_entry_missing: "fs f = None \<Longrightarrow> rename_entry fs f = fs"
  by (simp add: rename_entry_def os_rename_def)



lemma rename_entry_gone:
  assumes "is_julian_name g" "fs g = None"
  shows "rename_entry fs f g = None"
proof (cases "is_julian_name f")
  case True
  from iso_name_not_julian [OF True] assms(1) have "g \<noteq> iso_name f" by auto
  with assms(2) show ?thesis
    by (simp add: rename_entry_def os_rename_def split: option.splits)
next
  case False
  with assms(2) show ?thesis by (simp add: rename_entry_def)
qed















lemma str_nat_evals:
  "str_nat 2024 = ''2024''" "str_nat 4 = ''4''" "str_nat 8 = ''8''" "str_nat 1 = ''1''"
  "str_nat 9900 = ''9900''" "str_nat 9993 = ''9993''" "str_nat 3 = ''3''"
  "str_nat 2023 = ''2023''" "str_nat 366 = ''366''" "str_nat 0 = ''0''" "str_nat 99 = ''99''"
  "str_nat 999 = ''999''" "str_nat 367 = ''367''" "str_nat (Suc 0) = ''1''"
  by (simp_all add: str_nat.simps digit_char_def digits10_def)

















section \<open>Properties of \<open>merge_files\<close>\<close>

subsection \<open>The range of dates\<close>

lemma days_before_year_add:
  "1 \<le> y \<Longrightarrow> days_before_year y \<le> days_before_year (y + k)"
proof (induction k)
  case 0
  show ?case by simp
next
  case (Suc k)
  from Suc.prems have "1 \<le> y + k" by simp
  from days_before_year_Suc [OF this] Suc.IH [OF Suc.prems] show ?case by simp
qed

lemma days_before_year_mono:
  "1 \<le> y \<Longrightarrow> y \<le> y' \<Longrightarrow> days_before_year y \<le> days_before_year y'"
  using days_before_year_add [of y "y' - y"] by simp

lemma toordinal_le_last:
  assumes "valid_date e"
  shows "toordinal e \<le> days_before_year 10000"
proof -
  from assms have y: "1 \<le> year e" "year e + 1 \<le> 10000"
    by (simp_all add: valid_date_def)
  have "toordinal e \<le> days_before_year (year e) + days_in_year (year e)"
    using day_of_year_le [OF assms] by (simp add: toordinal_def)
  also have "\<dots> = days_before_year (year e + 1)"
    using days_before_year_Suc [OF y(1)] by simp
  also have "\<dots> \<le> days_before_year 10000"
    using y by (intro days_before_year_mono) simp_all
  finally show ?thesis .
qed

lemma valid_next_day:
  assumes "valid_date d" "valid_date e" "toordinal d < toordinal e"
  shows "valid_date (next_day d)"
proof (cases "day_of_year d < days_in_year (year d)")
  case True
  from next_day_within_year [OF assms(1) True] show ?thesis by simp
next
  case False
  with day_of_year_le [OF assms(1)] have last: "day_of_year d = days_in_year (year d)"
    by simp
  from assms(1) have y: "1 \<le> year d" "year d \<le> 9999" by (simp_all add: valid_date_def)
  have "year d \<noteq> 9999"
  proof
    assume "year d = 9999"
    then have "toordinal d = days_before_year 10000"
      using last days_before_year_Suc [of 9999] by (simp add: toordinal_def)
    with toordinal_le_last [OF assms(2)] assms(3) show False by simp
  qed
  with y have "year d + 1 \<le> 9999" by simp
  then show ?thesis
    unfolding next_day_new_year [OF assms(1) last]
    by (simp add: valid_date_def days_in_month_def)
qed

lemma year_next_day: "year d \<le> year (next_day d)"
  by (simp add: next_day_def)

lemma days_from_props:
  "valid_date d \<Longrightarrow> valid_date e \<Longrightarrow> toordinal d + n \<le> toordinal e \<Longrightarrow>
     map toordinal (days_from d n) = [toordinal d ..< toordinal d + n] \<and>
     (\<forall>x\<in>set (days_from d n). valid_date x \<and> year d \<le> year x)"
proof (induction n arbitrary: d)
  case 0
  then show ?case by simp
next
  case (Suc n)
  from Suc.prems(3) have lt: "toordinal d < toordinal e" by simp
  note v = valid_next_day [OF Suc.prems(1,2) lt]
  note t = toordinal_next_day [OF Suc.prems(1)]
  from Suc.prems(3) t have "toordinal (next_day d) + n \<le> toordinal e" by simp
  from Suc.IH [OF v Suc.prems(2) this] t Suc.prems(1) year_next_day [of d] show ?case
    by (auto simp: upt_conv_Cons)
qed

lemma prev_day_props:
  assumes "valid_date e" "e \<noteq> Date 1 1 1"
  shows "valid_date (prev_day e) \<and> toordinal (prev_day e) + 1 = toordinal e"
proof -
  obtain y m d where e: "e = Date y m d" by (cases e)
  from assms(1) e have b: "1 \<le> y" "y \<le> 9999" "1 \<le> m" "m \<le> 12" "1 \<le> d" "d \<le> days_in_month y m"
    by (simp_all add: valid_date_def)
  have "valid_date (prev_day e) \<and> next_day (prev_day e) = e"
  proof (cases "1 < d")
    case True
    with b show ?thesis
      by (auto simp: e prev_day_def next_day_def valid_date_def)
  next
    case d1: False
    with b have d: "d = 1" by simp
    show ?thesis
    proof (cases "1 < m")
      case True
      with b d days_in_month_pos [of y "m - 1"] show ?thesis
        by (auto simp: e prev_day_def next_day_def valid_date_def)
    next
      case False
      with b have m: "m = 1" by simp
      with d assms(2) e b have "2 \<le> y" by (cases "y = 1") simp_all
      with b d m show ?thesis
        by (auto simp: e prev_day_def next_day_def valid_date_def days_in_month_def)
    qed
  qed
  with toordinal_next_day [of "prev_day e"] show ?thesis by simp
qed

lemma iterated_dates_props:
  assumes "valid_date s" "valid_date e"
  shows "map toordinal (iterated_dates s e) = [toordinal s ..< toordinal e] \<and>
         (\<forall>x\<in>set (iterated_dates s e). valid_date x \<and> year s \<le> year x)"
proof (cases "e = Date 1 1 1")
  case True
  have "toordinal (Date 1 1 1) = 1"
    by (simp add: toordinal_def day_of_year_def days_before_month_def days_before_year_def)
  moreover have "1 \<le> toordinal s"
    using assms(1) by (simp add: toordinal_def day_of_year_def valid_date_def)
  ultimately show ?thesis
    using True by (simp add: iterated_dates_def date_range_def minus_one_day_def)
next
  case False
  from prev_day_props [OF assms(2) False]
  have p: "toordinal (prev_day e) + 1 = toordinal e" by simp
  have it: "iterated_dates s e = days_from s (toordinal e - toordinal s)"
    using False p by (simp add: iterated_dates_def date_range_def minus_one_day_def pd_date_range_def)
  show ?thesis
  proof (cases "toordinal s \<le> toordinal e")
    case True
    then have "toordinal s + (toordinal e - toordinal s) \<le> toordinal e" by simp
    from days_from_props [OF assms this] True show ?thesis
      unfolding it by simp
  next
    case False
    then show ?thesis unfolding it by simp
  qed
qed

lemma date_range_iterated:
  "date_range s e = Inr dates \<Longrightarrow> iterated_dates s e = dates"
  by (simp add: iterated_dates_def)

subsection \<open>The file names\<close>

lemma filename_parts:
  assumes "valid_date d" "1000 \<le> year d"
  shows "\<exists>Y M D. filename data_folder file_type d =
            data_folder @ Y @ ''-'' @ M @ ''-'' @ D @ ''.'' @ file_type \<and>
          length Y = 4 \<and> length M = 2 \<and> length D = 2 \<and>
          set (Y @ M @ D) \<subseteq> set digits10 \<and>
          int_of_digits Y = year d \<and> int_of_digits M = month d \<and> int_of_digits D = day d"
proof (intro exI conjI)
  show "filename data_folder file_type d =
          data_folder @ str_nat (year d) @ ''-'' @ zfill 2 (str_nat (month d)) @ ''-'' @
          zfill 2 (str_nat (day d)) @ ''.'' @ file_type"
    by (simp add: filename_def)
  from assms show "length (str_nat (year d)) = 4"
    by (intro length_str_nat_year) (simp_all add: valid_date_def)
  from assms(1) have "month d < 100" by (simp add: valid_date_def)
  then show "length (zfill 2 (str_nat (month d))) = 2" by (rule length_zfill2)
  from assms(1) have "day d \<le> 31" by (auto simp: valid_date_def days_in_month_def split: if_splits)
  then have "day d < 100" by simp
  then show "length (zfill 2 (str_nat (day d))) = 2" by (rule length_zfill2)
  show "set (str_nat (year d) @ zfill 2 (str_nat (month d)) @ zfill 2 (str_nat (day d)))
          \<subseteq> set digits10"
    using str_nat_digits [of "year d"] zfill_digits [of 2 "month d"] zfill_digits [of 2 "day d"]
    by simp
  show "int_of_digits (str_nat (year d)) = year d"
    by (rule int_of_digits_str_nat)
  show "int_of_digits (zfill 2 (str_nat (month d))) = month d"
    by (simp add: int_of_digits_zfill int_of_digits_str_nat)
  show "int_of_digits (zfill 2 (str_nat (day d))) = day d"
    by (simp add: int_of_digits_zfill int_of_digits_str_nat)
qed

subsection \<open>The loop\<close>

lemma merge_loop_loads:
  "\<forall>d\<in>set ds. path_exists e (filename df ft d) \<longrightarrow> loaded e ft vn (filename df ft d) \<noteq> None \<Longrightarrow>
   merge_loop e df ft vn ds st =
     (Completed,
      \<lparr>datasets = datasets st @
         map (\<lambda>d. the (loaded e ft vn (filename df ft d)))
           (filter (\<lambda>d. path_exists e (filename df ft d)) ds),
       times = times st @ filter (\<lambda>d. path_exists e (filename df ft d)) ds,
       printed = printed st @
         map (\<lambda>d. ''File not found: '' @ filename df ft d)
           (filter (\<lambda>d. \<not> path_exists e (filename df ft d)) ds),
       probed = probed st @ map (filename df ft) ds\<rparr>)"
proof (induction ds arbitrary: st)
  case Nil
  show ?case by simp
next
  case (Cons d ds)
  from Cons.prems
  have rest: "\<forall>d\<in>set ds. path_exists e (filename df ft d) \<longrightarrow> loaded e ft vn (filename df ft d) \<noteq> None"
    by simp
  note IH = Cons.IH [OF rest]
  show ?case
  proof (cases "path_exists e (filename df ft d)")
    case False
    then show ?thesis by (simp add: IH Let_def)
  next
    case True
    with Cons.prems obtain x where l: "loaded e ft vn (filename df ft d) = Some x" by auto
    have step: "merge_loop e df ft vn (d # ds) st =
        merge_loop e df ft vn ds
          (st\<lparr>probed := probed st @ [filename df ft d], datasets := datasets st @ [x],
              times := times st @ [d]\<rparr>)"
      using True l by (auto simp: Let_def loaded_def split: if_splits sum.splits)
    show ?thesis
      unfolding step IH using True l by simp
  qed
qed

lemma merge_loop_unsupported:
  "ft \<noteq> ''nc'' \<Longrightarrow> ft \<noteq> ''tif'' \<Longrightarrow> \<exists>d\<in>set ds. path_exists e (filename df ft d) \<Longrightarrow>
   merge_loop e df ft vn ds st =
     (Returned,
      st\<lparr>printed := printed st @
           map (\<lambda>d. ''File not found: '' @ filename df ft d)
             (takeWhile (\<lambda>d. \<not> path_exists e (filename df ft d)) ds) @
           [''Unsupported file type: '' @ ft],
         probed := probed st @
           map (filename df ft) (takeWhile (\<lambda>d. \<not> path_exists e (filename df ft d)) ds) @
           [filename df ft (hd (dropWhile (\<lambda>d. \<not> path_exists e (filename df ft d)) ds))]\<rparr>)"
proof (induction ds arbitrary: st)
  case Nil
  then show ?case by simp
next
  case (Cons d ds)
  show ?case
  proof (cases "path_exists e (filename df ft d)")
    case True
    with Cons.prems(1,2) show ?thesis by (simp add: Let_def)
  next
    case False
    with Cons.prems(3) have "\<exists>d\<in>set ds. path_exists e (filename df ft d)" by simp
    from Cons.IH [OF Cons.prems(1,2) this] False show ?thesis
      by (simp add: Let_def)
  qed
qed

lemma merge_loop_probed:
  "probed (snd (merge_loop e df ft vn ds st)) =
     probed st @
     map (filename df ft)
       (takeWhile (\<lambda>d. \<not> stops e ft vn (filename df ft d)) ds @
        take 1 (dropWhile (\<lambda>d. \<not> stops e ft vn (filename df ft d)) ds))"
proof (induction ds arbitrary: st)
  case Nil
  show ?case by simp
next
  case (Cons d ds)
  show ?case
  proof (cases "stops e ft vn (filename df ft d)")
    case True
    then have "probed (snd (merge_loop e df ft vn (d # ds) st)) = probed st @ [filename df ft d]"
      by (auto simp: Let_def loaded_def stops_def split: if_splits sum.splits)
    with True show ?thesis by simp
  next
    case False
    then have "\<exists>st'. merge_loop e df ft vn (d # ds) st = merge_loop e df ft vn ds st' \<and>
                probed st' = probed st @ [filename df ft d]"
      by (auto simp: Let_def loaded_def stops_def split: if_splits sum.splits)
    then obtain st' where st': "merge_loop e df ft vn (d # ds) st = merge_loop e df ft vn ds st'"
      "probed st' = probed st @ [filename df ft d]" by blast
    from Cons.IH [of st'] False show ?thesis
      unfolding st' by simp
  qed
qed

subsection \<open>After the loop\<close>

lemma merge_files_completed:
  assumes "date_range s e = Inr dates"
    and "\<forall>d\<in>set dates. path_exists env (filename df ft d) \<longrightarrow>
           loaded env ft vn (filename df ft d) \<noteq> None"
  shows "merge_files env s e df out ft units vn =
     (let found = filter (\<lambda>d. path_exists env (filename df ft d)) dates;
          dss = map (\<lambda>d. the (loaded env ft vn (filename df ft d))) found;
          lines = map (\<lambda>d. ''File not found: '' @ filename df ft d)
                    (filter (\<lambda>d. \<not> path_exists env (filename df ft d)) dates);
          files = map (filename df ft) dates
      in case xr_concat dss of
           Inl err \<Rightarrow>
             \<lparr>raised = Some err, output_lines = lines, shown_dataset = None,
              probed_files = files, written = None\<rparr>
         | Inr combined_ds \<Rightarrow>
             (case finish combined_ds found vn units of
                Inl err \<Rightarrow>
                  \<lparr>raised = Some err, output_lines = lines, shown_dataset = None,
                   probed_files = files, written = None\<rparr>
              | Inr m \<Rightarrow>
                  (case to_netcdf m of
                     Inl err \<Rightarrow>
                       \<lparr>raised = Some err, output_lines = lines, shown_dataset = None,
                        probed_files = files, written = None\<rparr>
                   | Inr file \<Rightarrow>
                       \<lparr>raised = None, output_lines = lines, shown_dataset = Some m,
                        probed_files = files, written = Some (out, file)\<rparr>)))"
  unfolding merge_files_def assms(1)
  by (simp add: merge_loop_loads [OF assms(2)] Let_def split: sum.splits)

lemma sum_list_ones: "\<forall>ds\<in>set dss. time_size ds = Some 1 \<Longrightarrow>
     sum_list (map (\<lambda>ds. the (time_size ds)) dss) = length dss"
  by (induction dss) auto

lemma xr_concat_single_days:
  assumes "dss \<noteq> []" and "\<forall>ds\<in>set dss. time_size ds = k" and "k = None \<or> k = Some 1"
  shows "xr_concat dss =
     Inr \<lparr>time_size = Some (length dss), var_names = remdups (concat (map var_names dss))\<rparr>"
  using assms(3)
proof
  assume "k = None"
  with assms(1,2) show ?thesis by (simp add: xr_concat_def list_all_iff)
next
  assume k: "k = Some 1"
  from assms(1) obtain x where "x \<in> set dss" by (cases dss) auto
  with assms(2) k have "\<not> list_all (\<lambda>ds. time_size ds = None) dss"
    by (auto simp: list_all_iff)
  moreover from assms(2) k have "list_all (\<lambda>ds. time_size ds \<noteq> None) dss"
    by (simp add: list_all_iff)
  moreover from assms(2) k have "sum_list (map (\<lambda>ds. the (time_size ds)) dss) = length dss"
    by (intro sum_list_ones) simp
  ultimately show ?thesis using assms(1) by (simp add: xr_concat_def)
qed

lemma merge_files_single_days:
  assumes dr: "date_range s e = Inr dates"
    and sd: "\<forall>d\<in>set dates. path_exists env (filename df ft d) \<longrightarrow>
           single_day env ft vn k (filename df ft d)"
    and ex: "\<exists>d\<in>set dates. path_exists env (filename df ft d)"
    and nt: "vn \<noteq> ''time''"
  shows "\<exists>m file. merge_files env s e df out ft units vn =
           \<lparr>raised = None,
            output_lines =
              map (\<lambda>d. ''File not found: '' @ filename df ft d)
                (filter (\<lambda>d. \<not> path_exists env (filename df ft d)) dates),
            shown_dataset = Some m,
            probed_files = map (filename df ft) dates,
            written = Some (out, file)\<rparr> \<and>
         time_coord m = filter (\<lambda>d. path_exists env (filename df ft d)) dates \<and>
         units_attr m = (vn, units) \<and>
         days_since file =
           fst (encode_times (filter (\<lambda>d. path_exists env (filename df ft d)) dates)) \<and>
         day_offsets file =
           snd (encode_times (filter (\<lambda>d. path_exists env (filename df ft d)) dates)) \<and>
         file_units file = (vn, units)"
proof -
  define found where "found = filter (\<lambda>d. path_exists env (filename df ft d)) dates"
  define dss where "dss = map (\<lambda>d. the (loaded env ft vn (filename df ft d))) found"
  from sd have ld: "\<forall>d\<in>set dates. path_exists env (filename df ft d) \<longrightarrow>
      loaded env ft vn (filename df ft d) \<noteq> None"
    by (fastforce simp: single_day_def split: option.splits)
  from ex have ne: "found \<noteq> []"
    by (auto simp: found_def filter_empty_conv)
  then have dne: "dss \<noteq> []" by (simp add: dss_def)
  have each: "\<forall>ds\<in>set dss. time_size ds = k \<and> (k = None \<or> k = Some 1) \<and> vn \<in> set (var_names ds)"
  proof
    fix ds assume "ds \<in> set dss"
    then obtain d where d: "d \<in> set dates" "path_exists env (filename df ft d)"
      and ds: "ds = the (loaded env ft vn (filename df ft d))"
      by (auto simp: dss_def found_def)
    from sd d have "single_day env ft vn k (filename df ft d)" by simp
    then show "time_size ds = k \<and> (k = None \<or> k = Some 1) \<and> vn \<in> set (var_names ds)"
      unfolding ds by (auto simp: single_day_def split: option.splits)
  qed
  from dne obtain x where "x \<in> set dss" by (cases dss) auto
  with each have k: "k = None \<or> k = Some 1" by blast
  from each have tk: "\<forall>ds\<in>set dss. time_size ds = k" by blast
  have len: "length dss = length found" by (simp add: dss_def)
  from dne each have vin: "vn \<in> set (remdups (concat (map var_names dss)))"
    by (cases dss) auto
  have c: "xr_concat dss =
      Inr \<lparr>time_size = Some (length found), var_names = remdups (concat (map var_names dss))\<rparr>"
    using xr_concat_single_days [OF dne tk k] len by simp
  have f: "finish \<lparr>time_size = Some (length found), var_names = remdups (concat (map var_names dss))\<rparr>
             found vn units =
           Inr \<lparr>time_coord = found, merged_names = remdups (concat (map var_names dss)),
                units_attr = (vn, units)\<rparr>"
    using vin by (simp add: finish_def)
  have w: "to_netcdf \<lparr>time_coord = found, merged_names = remdups (concat (map var_names dss)),
                      units_attr = (vn, units)\<rparr> =
           Inr \<lparr>days_since = fst (encode_times found), day_offsets = snd (encode_times found),
                file_names = remdups (concat (map var_names dss)), file_units = (vn, units)\<rparr>"
    using nt by (simp add: to_netcdf_def)
  show ?thesis
    unfolding merge_files_completed [OF dr ld]
    by (simp add: Let_def found_def [symmetric] dss_def [symmetric] c f w)
qed

subsection \<open>The time coordinate, written and read back\<close>

lemma days_from_add_days: "x \<in> set (days_from d n) \<Longrightarrow> \<exists>i<n. x = add_days d i"
proof (induction n arbitrary: d)
  case 0
  then show ?case by simp
next
  case (Suc n)
  from Suc.prems have "x = d \<or> x \<in> set (days_from (next_day d) n)" by simp
  then show ?case
  proof
    assume "x = d"
    then have "x = add_days d 0" by simp
    then show ?thesis by blast
  next
    assume "x \<in> set (days_from (next_day d) n)"
    from Suc.IH [OF this] obtain i where "i < n" "x = add_days (next_day d) i" by blast
    then have "Suc i < Suc n" "x = add_days d (Suc i)" by simp_all
    then show ?thesis by blast
  qed
qed

lemma toordinal_add_days:
  "valid_date d \<Longrightarrow> valid_date e \<Longrightarrow> toordinal d + i \<le> toordinal e \<Longrightarrow>
     toordinal (add_days d i) = toordinal d + i"
proof (induction i arbitrary: d)
  case 0
  show ?case by simp
next
  case (Suc i)
  from Suc.prems(3) have lt: "toordinal d < toordinal e" by simp
  note v = valid_next_day [OF Suc.prems(1,2) lt]
  note t = toordinal_next_day [OF Suc.prems(1)]
  from Suc.prems(3) t have "toordinal (next_day d) + i \<le> toordinal e" by simp
  from Suc.IH [OF v Suc.prems(2) this] t show ?case by simp
qed

lemma decode_encode_range:
  assumes "valid_date s" "valid_date e" "toordinal s + n \<le> toordinal e"
    and "set ts \<subseteq> set (days_from s n)"
    and "sorted_wrt (\<lambda>a b. toordinal a < toordinal b) ts"
  shows "map (shift_days (fst (encode_times ts))) (snd (encode_times ts)) = ts"
proof (cases ts)
  case Nil
  then show ?thesis by (simp add: encode_times_def)
next
  case (Cons first others)
  have idx: "\<exists>i<n. x = add_days s i \<and> toordinal x = toordinal s + i" if "x \<in> set ts" for x
  proof -
    from that assms(4) have "x \<in> set (days_from s n)" by auto
    from days_from_add_days [OF this] obtain i where i: "i < n" "x = add_days s i" by blast
    from i(1) assms(3) have "toordinal s + i \<le> toordinal e" by simp
    from toordinal_add_days [OF assms(1,2) this] i show ?thesis by auto
  qed
  have rback: "shift_days first (int (toordinal x) - int (toordinal first)) = x"
    if x: "x \<in> set ts" for x
  proof -
    from assms(5) Cons x have le: "toordinal first \<le> toordinal x" by auto
    from idx [OF x] obtain i where i: "x = add_days s i" "toordinal x = toordinal s + i"
      by blast
    from idx [of first] Cons obtain j where j: "first = add_days s j"
      "toordinal first = toordinal s + j" by auto
    from le i(2) j(2) have ji: "j \<le> i" by simp
    then have "int (toordinal x) - int (toordinal first) = int (i - j)"
      using i(2) j(2) by simp
    then have "shift_days first (int (toordinal x) - int (toordinal first)) =
        add_days first (i - j)"
      by (simp add: shift_days_def)
    also have "\<dots> = add_days s (j + (i - j))"
      unfolding j(1) by (simp only: add_days_add)
    also from ji have "\<dots> = x" by (simp add: i(1))
    finally show ?thesis .
  qed
  have "map (shift_days first) (map (\<lambda>d. int (toordinal d) - int (toordinal first)) ts) = ts"
    unfolding map_map by (rule map_idI) (simp add: rback)
  then show ?thesis
    unfolding encode_times_def Cons [symmetric] by (simp add: Cons)
qed

lemma iterated_dates_days_from:
  assumes "valid_date e"
  shows "\<exists>n. iterated_dates s e = days_from s n \<and> (n = 0 \<or> toordinal s + n \<le> toordinal e)"
proof (cases "e = Date 1 1 1")
  case True
  then have "iterated_dates s e = days_from s 0"
    by (simp add: iterated_dates_def date_range_def minus_one_day_def)
  then show ?thesis by blast
next
  case False
  from prev_day_props [OF assms False]
  have p: "toordinal (prev_day e) + 1 = toordinal e" by simp
  have it: "iterated_dates s e = days_from s (toordinal e - toordinal s)"
    using False p by (simp add: iterated_dates_def date_range_def minus_one_day_def pd_date_range_def)
  have "toordinal e - toordinal s = 0 \<or> toordinal s + (toordinal e - toordinal s) \<le> toordinal e"
    by arith
  with it show ?thesis by blast
qed

lemma read_back_found:
  assumes "valid_date s" "valid_date e"
  shows "map (shift_days (fst (encode_times (filter P (iterated_dates s e)))))
           (snd (encode_times (filter P (iterated_dates s e)))) =
         filter P (iterated_dates s e)"
proof -
  from iterated_dates_days_from [OF assms(2), of s] obtain n
    where n: "iterated_dates s e = days_from s n" "n = 0 \<or> toordinal s + n \<le> toordinal e"
    by blast
  show ?thesis
  proof (cases "n = 0")
    case True
    with n(1) show ?thesis by (simp add: encode_times_def)
  next
    case False
    with n(2) have le: "toordinal s + n \<le> toordinal e" by simp
    from iterated_dates_props [OF assms]
    have "map toordinal (iterated_dates s e) = [toordinal s ..< toordinal e]" by simp
    then have "sorted_wrt (<) (map toordinal (iterated_dates s e))" by simp
    then have "sorted_wrt (\<lambda>a b. toordinal a < toordinal b) (iterated_dates s e)"
      by (simp add: sorted_wrt_map)
    then have srt: "sorted_wrt (\<lambda>a b. toordinal a < toordinal b) (filter P (iterated_dates s e))"
      by (rule sorted_wrt_filter)
    have sub: "set (filter P (iterated_dates s e)) \<subseteq> set (days_from s n)"
      unfolding n(1) by auto
    from decode_encode_range [OF assms le sub srt] show ?thesis .
  qed
qed

subsection \<open>Runs on the example folders\<close>

lemmas ordinal_evals =
  toordinal_def day_of_year_def days_before_month_def days_before_year_def is_leap_def

lemmas range_evals =
  date_range_def minus_one_day_def prev_day_def pd_date_range_def ordinal_evals
  next_day_def days_in_month_def

lemma days_from_1: "days_from d 1 = [d]"
  by simp

lemma days_from_2: "days_from d 2 = [d, next_day d]"
  by (simp add: numeral_2_eq_2)

lemma days_from_3: "days_from d 3 = [d, next_day d, next_day (next_day d)]"
  by (simp add: numeral_3_eq_3)

lemma april_ranges:
  "date_range (Date 2024 4 8) (Date 2024 4 11) = Inr [Date 2024 4 8, Date 2024 4 9, Date 2024 4 10]"
  "date_range (Date 2024 4 7) (Date 2024 4 10) = Inr [Date 2024 4 7, Date 2024 4 8, Date 2024 4 9]"
  "date_range (Date 2024 4 8) (Date 2024 4 10) = Inr [Date 2024 4 8, Date 2024 4 9]"
  "date_range (Date 2024 4 8) (Date 2024 4 9) = Inr [Date 2024 4 8]"
  by (simp_all add: range_evals days_from_1 days_from_2 days_from_3)

lemma april_valid:
  "valid_date (Date 2024 4 8)" "valid_date (Date 2024 4 10)" "valid_date (Date 2024 4 11)"
  by (simp_all add: valid_date_def days_in_month_def)

lemma str_nat_small:
  "str_nat 7 = ''7''" "str_nat 9 = ''9''" "str_nat 10 = ''10''"
  by (simp_all add: str_nat.simps digit_char_def digits10_def)

lemma april_names:
  "filename ''d/'' ''tif'' (Date 2024 4 8) = ''d/2024-04-08.tif''"
  "filename ''d/'' ''tif'' (Date 2024 4 9) = ''d/2024-04-09.tif''"
  "filename ''d/'' ''tif'' (Date 2024 4 10) = ''d/2024-04-10.tif''"
  "filename ''d/'' ''xyz'' (Date 2024 4 7) = ''d/2024-04-07.xyz''"
  "filename ''d/'' ''xyz'' (Date 2024 4 8) = ''d/2024-04-08.xyz''"
  "filename ''d/'' ''xyz'' (Date 2024 4 9) = ''d/2024-04-09.xyz''"
  by (simp_all add: filename_def str_nat_evals str_nat_small zfill_def)

lemma raster_single_day:
  "rasterio_open env p = Inr src \<Longrightarrow> vn \<noteq> ''lat'' \<Longrightarrow> vn \<noteq> ''lon'' \<Longrightarrow>
     single_day env ''tif'' vn None p"
  by (simp add: single_day_def loaded_def raster_dataset_def)

lemma date_range_eq:
  "end_date \<noteq> Date 1 1 1 \<Longrightarrow> date_range s end_date = Inr (iterated_dates s end_date)"
  by (simp add: iterated_dates_def date_range_def minus_one_day_def)

lemma toordinal_first: "toordinal (Date 1 1 1) = 1"
  by (simp add: ordinal_evals)

lemma toordinal_pos: "valid_date d \<Longrightarrow> 1 \<le> toordinal d"
  by (simp add: toordinal_def day_of_year_def valid_date_def)

text \<open>
  Claim C2, as amended. With a file type that is neither \<open>nc\<close> nor \<open>tif\<close> no file is
  written. When a file of the range exists, the run prints \<open>File not found\<close> for the
  dates before the first existing file, then the warning \<open>Unsupported file type\<close>, and
  returns without raising. When no file of the range exists, the warning is never
  printed: every date gets \<open>File not found\<close> and the concatenation of the empty list
  raises \<open>ValueError\<close>.
\<close>

theorem merge_files_unsupported_type:
  fixes env start_date end_date data_folder output_folder file_type units variable_name
  defines "r \<equiv> merge_files env start_date end_date data_folder output_folder file_type units
                 variable_name"
  assumes "file_type \<noteq> ''nc''" and "file_type \<noteq> ''tif''"
  shows "written r = None \<and>
     (\<forall>dates. date_range start_date end_date = Inr dates \<longrightarrow>
        (if \<exists>d\<in>set dates. path_exists env (filename data_folder file_type d)
         then raised r = None \<and>
              output_lines r =
                map (\<lambda>d. ''File not found: '' @ filename data_folder file_type d)
                  (takeWhile (\<lambda>d. \<not> path_exists env (filename data_folder file_type d)) dates) @
                [''Unsupported file type: '' @ file_type]
         else raised r = Some (ValueError ''must supply at least one object to concatenate'') \<and>
              output_lines r =
                map (\<lambda>d. ''File not found: '' @ filename data_folder file_type d) dates))"
proof (cases "date_range start_date end_date")
  case (Inl err)
  then show ?thesis by (simp add: r_def merge_files_def)
next
  case (Inr dates)
  show ?thesis
  proof (cases "\<exists>d\<in>set dates. path_exists env (filename data_folder file_type d)")
    case True
    from merge_loop_unsupported [OF assms(2,3) True] True Inr show ?thesis
      by (simp add: r_def merge_files_def)
  next
    case False
    then have none: "filter (\<lambda>d. path_exists env (filename data_folder file_type d)) dates = []"
      and all: "filter (\<lambda>d. \<not> path_exists env (filename data_folder file_type d)) dates = dates"
      by (simp_all add: filter_empty_conv)
    from False have ld: "\<forall>d\<in>set dates. path_exists env (filename data_folder file_type d) \<longrightarrow>
        loaded env file_type variable_name (filename data_folder file_type d) \<noteq> None"
      by simp
    show ?thesis
      unfolding r_def merge_files_completed [OF Inr ld]
      using False Inr by (simp add: Let_def none all xr_concat_def)
  qed
qed

text \<open>
  The theorem on a folder that holds \<open>d/2024-04-08.xyz\<close>, for the 7th to the 9th of April.
\<close>

theorem merge_files_unsupported_type_witness:
  "written (merge_files xyz_folder (Date 2024 4 7) (Date 2024 4 10) ''d/'' ''out.nc'' ''xyz'' ''mm''
              ''data'') = None \<and>
   raised (merge_files xyz_folder (Date 2024 4 7) (Date 2024 4 10) ''d/'' ''out.nc'' ''xyz'' ''mm''
              ''data'') = None \<and>
   output_lines (merge_files xyz_folder (Date 2024 4 7) (Date 2024 4 10) ''d/'' ''out.nc'' ''xyz''
              ''mm'' ''data'') =
     [''File not found: d/2024-04-07.xyz'', ''Unsupported file type: xyz'']"
proof -
  have h1: "''xyz'' \<noteq> ''nc''" and h2: "''xyz'' \<noteq> ''tif''" by simp_all
  from merge_files_unsupported_type [OF h1 h2, of xyz_folder "Date 2024 4 7" "Date 2024 4 10"
      "''d/''" "''out.nc''" "''mm''" "''data''"]
  show ?thesis
    by (simp add: april_ranges april_names xyz_folder_def)
qed

text \<open>
  Claim C2 as stated fails on the empty folder: the run ends by an exception, and the
  warning about the file type is not printed.
\<close>

theorem merge_files_unsupported_type_counterexample:
  "raised (merge_files empty_folder (Date 2024 4 8) (Date 2024 4 9) ''d/'' ''out.nc'' ''xyz'' ''mm''
             ''data'') =
     Some (ValueError ''must supply at least one object to concatenate'') \<and>
   output_lines (merge_files empty_folder (Date 2024 4 8) (Date 2024 4 9) ''d/'' ''out.nc'' ''xyz''
             ''mm'' ''data'') =
     [''File not found: d/2024-04-08.xyz'']"
  by (simp add: merge_files_def april_ranges april_names empty_folder_def Let_def xr_concat_def)

text \<open>
  Claim C3, as amended. Take a range of calendar dates in which at least one per-day file
  exists, the files that exist being single-day files: they load (so the file type is
  \<open>nc\<close> or \<open>tif\<close>) into datasets that hold the variable and that all lack the \<open>time\<close>
  dimension or all have it with size one; and let the variable not be named \<open>time\<close>.
  Then the run does not raise, prints one \<open>File not found\<close> line for each date without
  a file and nothing else in the loop, and the time coordinate of the dataset it prints,
  and the one read back from the file it writes, is the list of the dates with a file,
  in the order of the range; the dates without a file are not in it.
\<close>

theorem merge_files_skips_missing:
  fixes env start_date end_date data_folder output_folder file_type units variable_name
  defines "r \<equiv> merge_files env start_date end_date data_folder output_folder file_type units
                 variable_name"
  assumes "valid_date start_date" and "valid_date end_date"
    and "\<forall>d\<in>set (iterated_dates start_date end_date).
           path_exists env (filename data_folder file_type d) \<longrightarrow>
           single_day env file_type variable_name k (filename data_folder file_type d)"
    and "\<exists>d\<in>set (iterated_dates start_date end_date).
           path_exists env (filename data_folder file_type d)"
    and "variable_name \<noteq> ''time''"
  shows "raised r = None \<and>
     output_lines r =
       map (\<lambda>d. ''File not found: '' @ filename data_folder file_type d)
         (filter (\<lambda>d. \<not> path_exists env (filename data_folder file_type d))
            (iterated_dates start_date end_date)) \<and>
     map_option time_coord (shown_dataset r) =
       Some (filter (\<lambda>d. path_exists env (filename data_folder file_type d))
               (iterated_dates start_date end_date)) \<and>
     read_time r output_folder =
       Some (filter (\<lambda>d. path_exists env (filename data_folder file_type d))
               (iterated_dates start_date end_date))"
proof -
  let ?dates = "iterated_dates start_date end_date"
  from assms(5) have "?dates \<noteq> []" by auto
  then have "end_date \<noteq> Date 1 1 1"
    by (auto simp: iterated_dates_def date_range_def minus_one_day_def)
  then have dr: "date_range start_date end_date = Inr ?dates" by (rule date_range_eq)
  from merge_files_single_days [OF dr assms(4,5,6), of output_folder units]
  obtain m nc where run: "r =
      \<lparr>raised = None,
       output_lines =
         map (\<lambda>d. ''File not found: '' @ filename data_folder file_type d)
           (filter (\<lambda>d. \<not> path_exists env (filename data_folder file_type d)) ?dates),
       shown_dataset = Some m,
       probed_files = map (filename data_folder file_type) ?dates,
       written = Some (output_folder, nc)\<rparr>"
    and m: "time_coord m = filter (\<lambda>d. path_exists env (filename data_folder file_type d)) ?dates"
    and f: "days_since nc =
        fst (encode_times (filter (\<lambda>d. path_exists env (filename data_folder file_type d)) ?dates))"
      "day_offsets nc =
        snd (encode_times (filter (\<lambda>d. path_exists env (filename data_folder file_type d)) ?dates))"
    unfolding r_def by blast
  have rback: "decode_times nc =
      filter (\<lambda>d. path_exists env (filename data_folder file_type d)) ?dates"
    unfolding decode_times_def f by (rule read_back_found [OF assms(2,3)])
  show ?thesis
    unfolding run by (simp add: read_time_def m rback)
qed

text \<open>
  The theorem on the range of the 8th to the 10th of April 2024 with the file of the 9th
  absent: the time coordinate has length 2 and holds the 8th and the 10th, in this order.
\<close>

theorem merge_files_skips_missing_witness:
  "raised (merge_files april_folder (Date 2024 4 8) (Date 2024 4 11) ''d/'' ''out.nc'' ''tif'' ''mm''
             ''data'') = None \<and>
   output_lines (merge_files april_folder (Date 2024 4 8) (Date 2024 4 11) ''d/'' ''out.nc'' ''tif''
             ''mm'' ''data'') =
     [''File not found: d/2024-04-09.tif''] \<and>
   read_time (merge_files april_folder (Date 2024 4 8) (Date 2024 4 11) ''d/'' ''out.nc'' ''tif''
             ''mm'' ''data'') ''out.nc'' =
     Some [Date 2024 4 8, Date 2024 4 10] \<and>
   length [Date 2024 4 8, Date 2024 4 10] = 2"
proof -
  have it: "iterated_dates (Date 2024 4 8) (Date 2024 4 11) =
      [Date 2024 4 8, Date 2024 4 9, Date 2024 4 10]"
    by (simp add: iterated_dates_def april_ranges)
  have h3: "\<forall>d\<in>set (iterated_dates (Date 2024 4 8) (Date 2024 4 11)).
      path_exists april_folder (filename ''d/'' ''tif'' d) \<longrightarrow>
      single_day april_folder ''tif'' ''data'' None (filename ''d/'' ''tif'' d)"
    by (simp add: it raster_single_day april_folder_def)
  have h4: "\<exists>d\<in>set (iterated_dates (Date 2024 4 8) (Date 2024 4 11)).
      path_exists april_folder (filename ''d/'' ''tif'' d)"
    by (simp add: it april_names april_folder_def)
  have h5: "''data'' \<noteq> ''time''" by simp
  from merge_files_skips_missing [OF april_valid(1,3) h3 h4 h5, of "''out.nc''" "''mm''"]
  show ?thesis
    by (simp add: it april_names april_folder_def)
qed

text \<open>
  Claim C3 as stated fails when every file of the range is absent: on the empty folder
  the run of the three days raises the \<open>ValueError\<close> of the empty concatenation and
  writes nothing.
\<close>

theorem merge_files_skips_missing_counterexample:
  "raised (merge_files empty_folder (Date 2024 4 8) (Date 2024 4 11) ''d/'' ''out.nc'' ''tif'' ''mm''
             ''data'') =
     Some (ValueError ''must supply at least one object to concatenate'') \<and>
   written (merge_files empty_folder (Date 2024 4 8) (Date 2024 4 11) ''d/'' ''out.nc'' ''tif'' ''mm''
             ''data'') = None"
  by (simp add: merge_files_def april_ranges april_names empty_folder_def Let_def xr_concat_def)

text \<open>
  Claim C4, as amended. Take calendar dates with \<open>start_date\<close> before \<open>end_date\<close>, every
  date of the range having a single-day file: the files load (so the file type is \<open>nc\<close>
  or \<open>tif\<close>, and for \<open>tif\<close> the variable is not named \<open>lat\<close> or \<open>lon\<close>) into datasets
  that hold the variable and that all lack the \<open>time\<close> dimension or all have it with
  size one; and let the variable not be named \<open>time\<close>. Then the time coordinate read
  back from the written file is the list of the dates of the range: as many as days from
  \<open>start_date\<close> to \<open>end_date\<close>, in strictly ascending order, none twice.
\<close>

theorem merge_files_round_trip:
  fixes env start_date end_date data_folder output_folder file_type units variable_name
  defines "r \<equiv> merge_files env start_date end_date data_folder output_folder file_type units
                 variable_name"
  assumes "valid_date start_date" and "valid_date end_date"
    and "toordinal start_date < toordinal end_date"
    and "\<forall>d\<in>set (iterated_dates start_date end_date).
           path_exists env (filename data_folder file_type d) \<and>
           single_day env file_type variable_name k (filename data_folder file_type d)"
    and "variable_name \<noteq> ''time''"
  shows "read_time r output_folder = Some (iterated_dates start_date end_date) \<and>
     length (iterated_dates start_date end_date) = toordinal end_date - toordinal start_date \<and>
     sorted_wrt (\<lambda>a b. toordinal a < toordinal b) (iterated_dates start_date end_date) \<and>
     distinct (iterated_dates start_date end_date)"
proof -
  let ?dates = "iterated_dates start_date end_date"
  from iterated_dates_props [OF assms(2,3)]
  have ords: "map toordinal ?dates = [toordinal start_date ..< toordinal end_date]" by simp
  from toordinal_pos [OF assms(2)] assms(4) toordinal_first have "end_date \<noteq> Date 1 1 1"
    by auto
  then have dr: "date_range start_date end_date = Inr ?dates" by (rule date_range_eq)
  from ords assms(4) have "map toordinal ?dates \<noteq> []" by simp
  then obtain d where d: "d \<in> set ?dates" by (cases ?dates) auto
  with assms(5) have ex: "\<exists>d\<in>set ?dates. path_exists env (filename data_folder file_type d)"
    by blast
  from assms(5) have sd: "\<forall>d\<in>set ?dates. path_exists env (filename data_folder file_type d) \<longrightarrow>
      single_day env file_type variable_name k (filename data_folder file_type d)"
    by simp
  from assms(5) have all: "filter (\<lambda>d. path_exists env (filename data_folder file_type d)) ?dates = ?dates"
    by simp
  from merge_files_single_days [OF dr sd ex assms(6), of output_folder units]
  obtain nc where run: "written r = Some (output_folder, nc)"
    and f: "days_since nc = fst (encode_times ?dates)"
      "day_offsets nc = snd (encode_times ?dates)"
    unfolding r_def all by auto
  have rback: "decode_times nc = ?dates"
    unfolding decode_times_def f
    using read_back_found [OF assms(2,3), of "\<lambda>d. True"] by simp
  have rt: "read_time r output_folder = Some ?dates"
    by (simp add: read_time_def run rback)
  have len: "length ?dates = toordinal end_date - toordinal start_date"
    using arg_cong [OF ords, of length] by simp
  have "sorted_wrt (<) (map toordinal ?dates)"
    unfolding ords by simp
  then have srt: "sorted_wrt (\<lambda>a b. toordinal a < toordinal b) ?dates"
    by (simp add: sorted_wrt_map)
  have "distinct (map toordinal ?dates)"
    unfolding ords by simp
  then have dst: "distinct ?dates" by (simp add: distinct_map)
  from rt len srt dst show ?thesis by simp
qed

text \<open>The theorem on a folder that has every file, for the 8th and the 9th of April 2024.\<close>

theorem merge_files_round_trip_witness:
  "read_time (merge_files full_folder (Date 2024 4 8) (Date 2024 4 10) ''d/'' ''out.nc'' ''tif'' ''mm''
                ''data'') ''out.nc'' =
     Some [Date 2024 4 8, Date 2024 4 9]"
proof -
  have it: "iterated_dates (Date 2024 4 8) (Date 2024 4 10) = [Date 2024 4 8, Date 2024 4 9]"
    by (simp add: iterated_dates_def april_ranges)
  have h3: "toordinal (Date 2024 4 8) < toordinal (Date 2024 4 10)"
    by (simp add: ordinal_evals)
  have h4: "\<forall>d\<in>set (iterated_dates (Date 2024 4 8) (Date 2024 4 10)).
      path_exists full_folder (filename ''d/'' ''tif'' d) \<and>
      single_day full_folder ''tif'' ''data'' None (filename ''d/'' ''tif'' d)"
    by (simp add: it raster_single_day full_folder_def)
  have h5: "''data'' \<noteq> ''time''" by simp
  from merge_files_round_trip [OF april_valid(1,2) h3 h4 h5, of "''out.nc''" "''mm''"] show ?thesis
    by (simp add: it)
qed

text \<open>
  Claim C4 as stated fails for rasters when the variable is named \<open>lat\<close>: both files of
  the range exist, the making of the first dataset raises, and no file is written that
  could be read back.
\<close>

theorem merge_files_round_trip_counterexample:
  "iterated_dates (Date 2024 4 8) (Date 2024 4 10) = [Date 2024 4 8, Date 2024 4 9] \<and>
   path_exists full_folder (filename ''d/'' ''tif'' (Date 2024 4 8)) \<and>
   path_exists full_folder (filename ''d/'' ''tif'' (Date 2024 4 9)) \<and>
   raised (merge_files full_folder (Date 2024 4 8) (Date 2024 4 10) ''d/'' ''out.nc'' ''tif'' ''mm''
             ''lat'') \<noteq> None \<and>
   written (merge_files full_folder (Date 2024 4 8) (Date 2024 4 10) ''d/'' ''out.nc'' ''tif'' ''mm''
             ''lat'') = None \<and>
   read_time (merge_files full_folder (Date 2024 4 8) (Date 2024 4 10) ''d/'' ''out.nc'' ''tif'' ''mm''
             ''lat'') ''out.nc'' = None"
  by (simp add: iterated_dates_def merge_files_def april_ranges full_folder_def Let_def
      raster_dataset_def read_time_def)

lemma merge_files_probed:
  "date_range s e = Inr dates \<Longrightarrow>
     probed_files (merge_files env s e df out ft units vn) =
       probed (snd (merge_loop env df ft vn dates
          \<lparr>datasets = [], times = [], printed = [], probed = []\<rparr>))"
  by (simp add: merge_files_def split: prod.splits loop_exit.splits sum.splits)

text \<open>
  Claim C9, as amended. For calendar dates with a four-digit year, the dates the loop
  runs over are the days from \<open>start_date\<close> to the day before \<open>end_date\<close>, one after
  the other, and \<open>end_date\<close> is not among them. The paths probed are the file names of
  these dates, in order, up to and including the first date at which the loop is left,
  by the \<open>return\<close> for a file type that is neither \<open>nc\<close> nor \<open>tif\<close> or by an
  exception of the opening; they are the file names of all the dates when the loop is
  left at none. The file name of a date is the folder prefix, the year in four digits, a
  dash, the month in two digits, a dash, the day in two digits, a dot and the file type.
\<close>

theorem merge_files_probes:
  fixes env start_date end_date data_folder output_folder file_type units variable_name
  defines "r \<equiv> merge_files env start_date end_date data_folder output_folder file_type units
                 variable_name"
  assumes "valid_date start_date" and "valid_date end_date" and "1000 \<le> year start_date"
  shows "map toordinal (iterated_dates start_date end_date) =
       [toordinal start_date ..< toordinal end_date] \<and>
     end_date \<notin> set (iterated_dates start_date end_date) \<and>
     probed_files r =
       map (filename data_folder file_type)
         (takeWhile (\<lambda>d. \<not> stops env file_type variable_name (filename data_folder file_type d))
            (iterated_dates start_date end_date) @
          take 1
            (dropWhile (\<lambda>d. \<not> stops env file_type variable_name (filename data_folder file_type d))
               (iterated_dates start_date end_date))) \<and>
     ((\<forall>d\<in>set (iterated_dates start_date end_date).
          \<not> stops env file_type variable_name (filename data_folder file_type d)) \<longrightarrow>
      probed_files r = map (filename data_folder file_type) (iterated_dates start_date end_date)) \<and>
     (\<forall>d\<in>set (iterated_dates start_date end_date).
        \<exists>Y M D. filename data_folder file_type d =
                  data_folder @ Y @ ''-'' @ M @ ''-'' @ D @ ''.'' @ file_type \<and>
                length Y = 4 \<and> length M = 2 \<and> length D = 2 \<and>
                set (Y @ M @ D) \<subseteq> set digits10 \<and>
                int_of_digits Y = year d \<and> int_of_digits M = month d \<and> int_of_digits D = day d)"
proof -
  let ?dates = "iterated_dates start_date end_date"
  let ?go = "\<lambda>d. \<not> stops env file_type variable_name (filename data_folder file_type d)"
  note props = iterated_dates_props [OF assms(2,3)]
  then have ords: "map toordinal ?dates = [toordinal start_date ..< toordinal end_date]" by simp
  have notin: "end_date \<notin> set ?dates"
  proof
    assume "end_date \<in> set ?dates"
    then have "toordinal end_date \<in> set (map toordinal ?dates)" by simp
    then show False unfolding ords by simp
  qed
  have pre: "probed_files r =
      map (filename data_folder file_type) (takeWhile ?go ?dates @ take 1 (dropWhile ?go ?dates))"
  proof (cases "end_date = Date 1 1 1")
    case True
    then show ?thesis
      by (simp add: r_def merge_files_def iterated_dates_def date_range_def minus_one_day_def)
  next
    case False
    then have dr: "date_range start_date end_date = Inr ?dates" by (rule date_range_eq)
    show ?thesis
      unfolding r_def merge_files_probed [OF dr]
      by (simp add: merge_loop_probed)
  qed
  have full: "probed_files r = map (filename data_folder file_type) ?dates"
    if "\<forall>d\<in>set ?dates. ?go d"
  proof -
    have tw: "takeWhile ?go ?dates = ?dates"
      using that by simp
    have dw: "dropWhile ?go ?dates = []"
      using that by simp
    show ?thesis unfolding pre tw dw by simp
  qed
  have names: "\<forall>d\<in>set ?dates.
        \<exists>Y M D. filename data_folder file_type d =
                  data_folder @ Y @ ''-'' @ M @ ''-'' @ D @ ''.'' @ file_type \<and>
                length Y = 4 \<and> length M = 2 \<and> length D = 2 \<and>
                set (Y @ M @ D) \<subseteq> set digits10 \<and>
                int_of_digits Y = year d \<and> int_of_digits M = month d \<and> int_of_digits D = day d"
  proof
    fix d assume "d \<in> set ?dates"
    with props assms(4) have "valid_date d" "1000 \<le> year d" by auto
    then show "\<exists>Y M D. filename data_folder file_type d =
                  data_folder @ Y @ ''-'' @ M @ ''-'' @ D @ ''.'' @ file_type \<and>
                length Y = 4 \<and> length M = 2 \<and> length D = 2 \<and>
                set (Y @ M @ D) \<subseteq> set digits10 \<and>
                int_of_digits Y = year d \<and> int_of_digits M = month d \<and> int_of_digits D = day d"
      by (rule filename_parts)
  qed
  from ords notin pre full names show ?thesis by blast
qed

text \<open>
  The theorem on the range of the 8th to the 10th of April 2024, where the rasters of the
  8th and the 10th exist and load.
\<close>

theorem merge_files_probes_witness:
  "probed_files (merge_files april_folder (Date 2024 4 8) (Date 2024 4 11) ''d/'' ''out.nc'' ''tif''
                   ''mm'' ''data'') =
     [''d/2024-04-08.tif'', ''d/2024-04-09.tif'', ''d/2024-04-10.tif'']"
proof -
  have it: "iterated_dates (Date 2024 4 8) (Date 2024 4 11) =
      [Date 2024 4 8, Date 2024 4 9, Date 2024 4 10]"
    by (simp add: iterated_dates_def april_ranges)
  have h3: "1000 \<le> year (Date 2024 4 8)" by simp
  have h4: "\<forall>d\<in>set (iterated_dates (Date 2024 4 8) (Date 2024 4 11)).
      \<not> stops april_folder ''tif'' ''data'' (filename ''d/'' ''tif'' d)"
    by (simp add: it stops_def loaded_def raster_dataset_def april_folder_def)
  from merge_files_probes [where env = april_folder and data_folder = "''d/''"
      and file_type = "''tif''" and variable_name = "''data''" and output_folder = "''out.nc''"
      and units = "''mm''", OF april_valid(1,3) h3] h4
  show ?thesis
    by (simp add: it april_names)
qed

text \<open>
  Claim C9 as stated fails when the loop is left early: with a file of an unknown type
  for the 8th of April, the range of the 7th to the 9th is probed for the 7th and the
  8th only. And the year of a date before the year 1000 is not written in four digits.
\<close>

theorem merge_files_probes_counterexample:
  "iterated_dates (Date 2024 4 7) (Date 2024 4 10) =
     [Date 2024 4 7, Date 2024 4 8, Date 2024 4 9] \<and>
   probed_files (merge_files xyz_folder (Date 2024 4 7) (Date 2024 4 10) ''d/'' ''out.nc'' ''xyz''
                   ''mm'' ''data'') =
     [''d/2024-04-07.xyz'', ''d/2024-04-08.xyz''] \<and>
   filename ''d/'' ''tif'' (Date 999 1 5) = ''d/999-01-05.tif''"
proof -
  have n: "filename ''d/'' ''tif'' (Date 999 1 5) = ''d/999-01-05.tif''"
    by (simp add: filename_def str_nat.simps digit_char_def digits10_def zfill_def)
  show ?thesis
    using n
    by (simp add: iterated_dates_def merge_files_def april_ranges april_names xyz_folder_def
        Let_def)
qed

section \<open>Properties of \<open>plot_nc_file\<close>\<close>

text \<open>
  Claim C7. For every dataset the path opens to and every variable name the dataset has
  not, \<open>plot_nc_file\<close> raises \<open>ValueError\<close> with the message that names the variable. The
  result of a run is either the exception or the image written, so the run that raises
  has written no image.
\<close>

theorem plot_nc_file_missing_variable:
  assumes "xr_open file_path = Inr dataset"
    and "map_of (variables dataset) variable_name = None"
  shows "plot_nc_file xr_open file_path variable_name save_path lon_dim lat_dim time_dim =
     Inl (ValueError (''La variable '' @ [CHR 0x27] @ variable_name @ [CHR 0x27] @
                      '' no se encuentra en el archivo.''))"
  using assms by (simp add: plot_nc_file_def no_se_encuentra_def)

text \<open>The theorem on the example grid, asked for a variable \<open>snow\<close> it has not.\<close>

theorem plot_nc_file_missing_variable_witness:
  "plot_nc_file example_files ''data.nc'' ''snow'' ''figures/'' ''lon'' ''lat'' ''time'' =
     Inl (ValueError (''La variable '' @ [CHR 0x27] @ ''snow'' @ [CHR 0x27] @
                      '' no se encuentra en el archivo.''))"
proof -
  have h1: "example_files ''data.nc'' = Inr two_by_two"
    by (simp add: example_files_def)
  have h2: "map_of (variables two_by_two) ''snow'' = None"
    by (simp add: two_by_two_def)
  from plot_nc_file_missing_variable [where xr_open = example_files and file_path = "''data.nc''"
      and dataset = two_by_two, OF h1 h2]
  show ?thesis .
qed

section \<open>Properties of \<open>country_crop\<close>\<close>






section \<open>Properties of \<open>regions_crop\<close>\<close>






section \<open>Properties of \<open>calculate_daily_mean_per_municipality\<close>\<close>

lemma nearest_of_nearest:
  "nearest_of target best cs \<in> set (best # cs) \<and>
   (\<forall>c\<in>set (best # cs). \<bar>nearest_of target best cs - target\<bar> \<le> \<bar>c - target\<bar>)"
proof (induction cs arbitrary: best)
  case Nil
  show ?case by simp
next
  case (Cons c cs)
  show ?case
  proof (cases "\<bar>c - target\<bar> < \<bar>best - target\<bar> \<or> (\<bar>c - target\<bar> = \<bar>best - target\<bar> \<and> best < c)")
    case True
    with Cons.IH [of c] show ?thesis by fastforce
  next
    case False
    have eq: "nearest_of target best (c # cs) = nearest_of target best cs"
      by (simp only: nearest_of.simps False if_False)
    from False have le: "\<bar>best - target\<bar> \<le> \<bar>c - target\<bar>"
      by linarith
    from Cons.IH [of best] have m: "nearest_of target best cs \<in> set (best # cs)"
      and a: "\<And>c'. c' \<in> set (best # cs) \<Longrightarrow>
                \<bar>nearest_of target best cs - target\<bar> \<le> \<bar>c' - target\<bar>"
      by blast+
    from a [of best] le have "\<bar>nearest_of target best cs - target\<bar> \<le> \<bar>c - target\<bar>"
      by simp
    with m a show ?thesis unfolding eq by auto
  qed
qed

lemma sel_nearest_nearest:
  assumes "labels \<noteq> []" "distinct labels" "sorted labels \<or> sorted (rev labels)"
  shows "\<exists>c. sel_nearest labels target = Inr c \<and> c \<in> set labels \<and>
           (\<forall>c'\<in>set labels. \<bar>c - target\<bar> \<le> \<bar>c' - target\<bar>)"
proof -
  from assms(1) obtain b cs where l: "labels = b # cs" by (cases labels) auto
  from nearest_of_nearest [of target b cs] assms(2,3) show ?thesis
    unfolding l sel_nearest_def by simp
qed

lemma municipalities_loop_all:
  "\<forall>m\<in>set ms. row m = Inr (f m) \<Longrightarrow>
     municipalities_loop row ms results = Inr (results @ map f ms)"
  by (induction ms arbitrary: results) auto

text \<open>
  Claim C8, as amended. Take a layer whose records have the two label columns and a grid
  that holds the variable over \<open>time\<close> and over the spatial dimensions (\<open>lon\<close> and
  \<open>lat\<close> when the grid has dimensions of these names, else \<open>x\<close> and \<open>y\<close>), the
  longitudes and the latitudes being at least one each, without repetition, in ascending
  or in descending order. Then \<open>calculate_daily_mean_per_municipality\<close> returns a table
  with one row per record, in the order of the file. The row of a record holds its
  region label, its municipality label and the mean over time of the variable at a cell
  of the grid whose latitude and longitude are the labels nearest to the centroid of
  the record: the value of that cell, not an interpolation. The result of the function
  is the table alone; no file is part of it.
\<close>

theorem municipality_means:
  assumes rf: "read_file shapefile_path = Inr municipalities"
    and xo: "xr_open netcdf_file = Inr dataset"
    and var: "map_of (variables dataset) variable_name = Some v"
    and lon: "(if ''lon'' \<in> set (dim_names dataset) then ''lon'' else ''x'') \<in> set (var_dims v)"
    and lat: "(if ''lat'' \<in> set (dim_names dataset) then ''lat'' else ''y'') \<in> set (var_dims v)"
    and time: "''time'' \<in> set (var_dims v)"
    and lons: "lon_coords dataset \<noteq> []" "distinct (lon_coords dataset)"
      "sorted (lon_coords dataset) \<or> sorted (rev (lon_coords dataset))"
    and lats: "lat_coords dataset \<noteq> []" "distinct (lat_coords dataset)"
      "sorted (lat_coords dataset) \<or> sorted (rev (lat_coords dataset))"
    and cols: "\<forall>m\<in>set municipalities.
      map_of (props m) region_column \<noteq> None \<and> map_of (props m) municipality_column \<noteq> None"
  shows "\<exists>table. calculate_daily_mean_per_municipality read_file xr_open shapefile_path
                   netcdf_file variable_name region_column municipality_column units =
                   Inr table \<and>
     length (table_rows table) = length municipalities \<and>
     (\<forall>i<length municipalities. \<exists>y x.
         y \<in> set (lat_coords dataset) \<and> x \<in> set (lon_coords dataset) \<and>
         (\<forall>y'\<in>set (lat_coords dataset).
            \<bar>y - centroid_y (municipalities ! i)\<bar> \<le> \<bar>y' - centroid_y (municipalities ! i)\<bar>) \<and>
         (\<forall>x'\<in>set (lon_coords dataset).
            \<bar>x - centroid_x (municipalities ! i)\<bar> \<le> \<bar>x' - centroid_x (municipalities ! i)\<bar>) \<and>
         table_rows table ! i =
           (the (map_of (props (municipalities ! i)) region_column),
            the (map_of (props (municipalities ! i)) municipality_column),
            nanmean (map (\<lambda>t. var_values v t y x)
                       [0..<length (axis_dates (time_values dataset))])))"
proof -
  define near_x where "near_x m = projr (sel_nearest (lon_coords dataset) (centroid_x m))"
    for m :: feature
  define near_y where "near_y m = projr (sel_nearest (lat_coords dataset) (centroid_y m))"
    for m :: feature
  define f where "f m =
     (the (map_of (props m) region_column), the (map_of (props m) municipality_column),
      nanmean (map (\<lambda>t. var_values v t (near_y m) (near_x m))
                 [0..<length (axis_dates (time_values dataset))]))"
    for m :: feature
  have nx: "sel_nearest (lon_coords dataset) (centroid_x m) = Inr (near_x m) \<and>
      near_x m \<in> set (lon_coords dataset) \<and>
      (\<forall>x'\<in>set (lon_coords dataset). \<bar>near_x m - centroid_x m\<bar> \<le> \<bar>x' - centroid_x m\<bar>)" for m
    using sel_nearest_nearest [OF lons, of "centroid_x m"] unfolding near_x_def by auto
  have ny: "sel_nearest (lat_coords dataset) (centroid_y m) = Inr (near_y m) \<and>
      near_y m \<in> set (lat_coords dataset) \<and>
      (\<forall>y'\<in>set (lat_coords dataset). \<bar>near_y m - centroid_y m\<bar> \<le> \<bar>y' - centroid_y m\<bar>)" for m
    using sel_nearest_nearest [OF lats, of "centroid_y m"] unfolding near_y_def by auto
  have row: "municipality_row dataset v lon_dim lat_dim region_column municipality_column m =
      Inr (f m)"
    if "m \<in> set municipalities" and dims: "lon_dim \<in> set (var_dims v)" "lat_dim \<in> set (var_dims v)"
    for m lon_dim lat_dim
  proof -
    from cols that(1) obtain r mu where r: "map_of (props m) region_column = Some r"
      and mu: "map_of (props m) municipality_column = Some mu" by auto
    show ?thesis
      unfolding municipality_row_def
      by (simp add: dims time conjunct1 [OF nx] conjunct1 [OF ny] r mu f_def n_steps_def)
  qed
  have loop: "municipalities_loop
      (municipality_row dataset v lon_dim lat_dim region_column municipality_column)
      municipalities [] = Inr (map f municipalities)"
    if "lon_dim \<in> set (var_dims v)" "lat_dim \<in> set (var_dims v)" for lon_dim lat_dim
    using municipalities_loop_all
      [of municipalities "municipality_row dataset v lon_dim lat_dim region_column
         municipality_column" f "[]"] row [OF _ that] by simp
  define table where "table =
     \<lparr>columns = (if map f municipalities = [] then []
                 else [''region'', ''municipio'',
                       variable_name @ ''_promedio ('' @ units @ '')'']),
      table_rows = map f municipalities\<rparr>"
  have run: "calculate_daily_mean_per_municipality read_file xr_open shapefile_path
      netcdf_file variable_name region_column municipality_column units = Inr table"
    by (simp only: calculate_daily_mean_per_municipality_def rf xo var sum.case option.case
        Let_def loop [OF lon lat] table_def)
  have rows: "\<exists>y x.
         y \<in> set (lat_coords dataset) \<and> x \<in> set (lon_coords dataset) \<and>
         (\<forall>y'\<in>set (lat_coords dataset).
            \<bar>y - centroid_y (municipalities ! i)\<bar> \<le> \<bar>y' - centroid_y (municipalities ! i)\<bar>) \<and>
         (\<forall>x'\<in>set (lon_coords dataset).
            \<bar>x - centroid_x (municipalities ! i)\<bar> \<le> \<bar>x' - centroid_x (municipalities ! i)\<bar>) \<and>
         table_rows table ! i =
           (the (map_of (props (municipalities ! i)) region_column),
            the (map_of (props (municipalities ! i)) municipality_column),
            nanmean (map (\<lambda>t. var_values v t y x)
                       [0..<length (axis_dates (time_values dataset))]))"
    if "i < length municipalities" for i
  proof -
    have "table_rows table ! i = f (municipalities ! i)"
      using that by (simp add: table_def)
    with nx [of "municipalities ! i"] ny [of "municipalities ! i"] show ?thesis
      unfolding f_def by blast
  qed
  have len: "length (table_rows table) = length municipalities"
    by (simp add: table_def)
  from run len rows show ?thesis by blast
qed

text \<open>Among the labels 0 and 1, the nearest to a target below or above one half.\<close>

lemma nearest_unique_zero:
  fixes x :: real
  assumes "x \<in> set [0, 1]" "\<forall>x'\<in>set [0, 1]. \<bar>x - c\<bar> \<le> \<bar>x' - c\<bar>" "c < 1 / 2"
  shows "x = 0"
  using assms by auto

lemma nearest_unique_one:
  fixes x :: real
  assumes "x \<in> set [0, 1]" "\<forall>x'\<in>set [0, 1]. \<bar>x - c\<bar> \<le> \<bar>x' - c\<bar>" "1 / 2 < c"
  shows "x = 1"
  using assms by auto

text \<open>
  The theorem on the example grid and layer: the centroid of the first record is nearest
  to latitude 1 and longitude 0, where the variable is 1 then 2; the centroid of the
  second is the cell of latitude 0 and longitude 1, where it is 2 then 3.
\<close>

theorem municipality_means_witness:
  "\<exists>table. calculate_daily_mean_per_municipality example_layers example_files ''regions.shp''
             ''data.nc'' ''rain'' ''NAME_1'' ''NAME_2'' ''mm'' = Inr table \<and>
     length (table_rows table) = 2 \<and>
     table_rows table ! 0 = (''R1'', ''M1'', Some (3 / 2)) \<and>
     table_rows table ! 1 = (''R2'', ''M2'', Some (5 / 2))"
proof -
  have h1: "example_layers ''regions.shp'' = Inr [norte, sur]"
    by (simp add: example_layers_def)
  have h2: "example_files ''data.nc'' = Inr two_by_two"
    by (simp add: example_files_def)
  have h3: "map_of (variables two_by_two) ''rain'' = Some rain"
    by (simp add: two_by_two_def)
  have h4: "(if ''lon'' \<in> set (dim_names two_by_two) then ''lon'' else ''x'') \<in> set (var_dims rain)"
    and h5: "(if ''lat'' \<in> set (dim_names two_by_two) then ''lat'' else ''y'') \<in> set (var_dims rain)"
    and h6: "''time'' \<in> set (var_dims rain)"
    by (simp_all add: two_by_two_def rain_def)
  have h7: "lon_coords two_by_two \<noteq> []" and h7d: "distinct (lon_coords two_by_two)"
    and h8: "sorted (lon_coords two_by_two) \<or> sorted (rev (lon_coords two_by_two))"
    and h9: "lat_coords two_by_two \<noteq> []" and h9d: "distinct (lat_coords two_by_two)"
    and h10: "sorted (lat_coords two_by_two) \<or> sorted (rev (lat_coords two_by_two))"
    by (simp_all add: two_by_two_def)
  have h11: "\<forall>m\<in>set [norte, sur].
      map_of (props m) ''NAME_1'' \<noteq> None \<and> map_of (props m) ''NAME_2'' \<noteq> None"
    by (simp add: norte_def sur_def)
  note inst = municipality_means [where read_file = example_layers and xr_open = example_files
      and shapefile_path = "''regions.shp''" and netcdf_file = "''data.nc''"
      and municipalities = "[norte, sur]" and dataset = two_by_two
      and variable_name = "''rain''" and v = rain and region_column = "''NAME_1''"
      and municipality_column = "''NAME_2''" and units = "''mm''",
      OF h1 h2 h3 h4 h5 h6 h7 h7d h8 h9 h9d h10 h11]
  then obtain table where run: "calculate_daily_mean_per_municipality example_layers
        example_files ''regions.shp'' ''data.nc'' ''rain'' ''NAME_1'' ''NAME_2'' ''mm'' = Inr table"
    and len: "length (table_rows table) = length [norte, sur]"
    and rows: "\<And>i. i < length [norte, sur] \<Longrightarrow> \<exists>y x.
         y \<in> set (lat_coords two_by_two) \<and> x \<in> set (lon_coords two_by_two) \<and>
         (\<forall>y'\<in>set (lat_coords two_by_two).
            \<bar>y - centroid_y ([norte, sur] ! i)\<bar> \<le> \<bar>y' - centroid_y ([norte, sur] ! i)\<bar>) \<and>
         (\<forall>x'\<in>set (lon_coords two_by_two).
            \<bar>x - centroid_x ([norte, sur] ! i)\<bar> \<le> \<bar>x' - centroid_x ([norte, sur] ! i)\<bar>) \<and>
         table_rows table ! i =
           (the (map_of (props ([norte, sur] ! i)) ''NAME_1''),
            the (map_of (props ([norte, sur] ! i)) ''NAME_2''),
            nanmean (map (\<lambda>t. var_values rain t y x)
                       [0..<length (axis_dates (time_values two_by_two))]))"
    by blast
  have coords: "lat_coords two_by_two = [0, 1]" "lon_coords two_by_two = [0, 1]"
    by (simp_all add: two_by_two_def)
  have steps: "[0..<length (axis_dates (time_values two_by_two))] = [0, 1]"
    by (simp add: two_by_two_def upt_rec)
  from rows [of 0] obtain y x where a:
    "y \<in> set [0, 1]" "x \<in> set [0, 1]"
    "\<forall>y'\<in>set [0, 1]. \<bar>y - centroid_y norte\<bar> \<le> \<bar>y' - centroid_y norte\<bar>"
    "\<forall>x'\<in>set [0, 1]. \<bar>x - centroid_x norte\<bar> \<le> \<bar>x' - centroid_x norte\<bar>"
    "table_rows table ! 0 =
       (the (map_of (props norte) ''NAME_1''), the (map_of (props norte) ''NAME_2''),
        nanmean (map (\<lambda>t. var_values rain t y x) [0, 1]))"
    unfolding coords steps by auto
  have "y = 1" by (rule nearest_unique_one [OF a(1) a(3)]) (simp add: norte_def)
  moreover have "x = 0" by (rule nearest_unique_zero [OF a(2) a(4)]) (simp add: norte_def)
  ultimately have r0: "table_rows table ! 0 = (''R1'', ''M1'', Some (3 / 2))"
    using a(5) by (simp add: norte_def rain_def nanmean_def numbers_def)
  from rows [of 1] obtain y x where b:
    "y \<in> set [0, 1]" "x \<in> set [0, 1]"
    "\<forall>y'\<in>set [0, 1]. \<bar>y - centroid_y sur\<bar> \<le> \<bar>y' - centroid_y sur\<bar>"
    "\<forall>x'\<in>set [0, 1]. \<bar>x - centroid_x sur\<bar> \<le> \<bar>x' - centroid_x sur\<bar>"
    "table_rows table ! 1 =
       (the (map_of (props sur) ''NAME_1''), the (map_of (props sur) ''NAME_2''),
        nanmean (map (\<lambda>t. var_values rain t y x) [0, 1]))"
    unfolding coords steps by auto
  have "y = 0" by (rule nearest_unique_zero [OF b(1) b(3)]) (simp add: sur_def)
  moreover have "x = 1" by (rule nearest_unique_one [OF b(2) b(4)]) (simp add: sur_def)
  ultimately have r1: "table_rows table ! 1 = (''R2'', ''M2'', Some (5 / 2))"
    using b(5) by (simp add: sur_def rain_def nanmean_def numbers_def)
  from run len r0 r1 show ?thesis by (intro exI [of _ table]) simp
qed

text \<open>
  Claim C8 as stated fails on a grid that holds the variable without the \<open>time\<close>
  dimension: the mask of the examples holds \<open>mask\<close> over latitude and longitude only,
  the mean over \<open>time\<close> raises for the first record and no table is returned.
\<close>

theorem municipality_means_counterexample:
  "example_files ''mask.nc'' = Inr corner_mask \<and>
   map_of (variables corner_mask) ''mask'' = Some corner \<and>
   example_layers ''regions.shp'' = Inr [norte, sur] \<and>
   isl (calculate_daily_mean_per_municipality example_layers example_files ''regions.shp''
          ''mask.nc'' ''mask'' ''NAME_1'' ''NAME_2'' ''mm'')"
  by (simp add: calculate_daily_mean_per_municipality_def example_files_def example_layers_def
      corner_mask_def corner_def municipality_row_def sel_nearest_def Let_def)

end
